theory Spec2Isabelle
  imports Complex_Main "HOL-Library.Sublist"
begin

section \<open>Python values\<close>

text \<open>
  A Python \<open>str\<close> is a sequence of Unicode code points, and \<open>len\<close> counts code points:
  a text is a list of code points, each a natural number. \<open>str\<close> turns an ASCII literal of
  the source into such a list.
\<close>

type_synonym pystr = "nat list"

definition str :: "string \<Rightarrow> pystr" where
  "str s = map of_char s"

text \<open>
  The values that \<open>json.loads\<close> produces and that the code passes around untyped
  (\<open>Dict[str, Any]\<close>): \<open>PNone\<close> is Python's \<open>None\<close>. A dict is the list of its items
  (their keys are distinct), looked up with \<open>map_of\<close>.
\<close>

datatype pyvalue =
    PNone
  | PBool bool
  | PInt int
  | PFloat real
  | PStr pystr
  | PList "pyvalue list"
  | PDict "(pystr \<times> pyvalue) list"

datatype error = AttributeError | TypeError

section \<open>session.py\<close>

record ConversationMessage =
  role :: pystr
  content :: pystr
  timestamp :: real
  metadata :: "(pystr \<times> pyvalue) list"

text \<open>
  \<open>original_question\<close> and \<open>clarification_context\<close> hold whatever the caller stores
  (Python checks no annotation): \<open>original_question\<close> is a Python value, absent when it is
  \<open>PNone\<close>, and \<open>clarification_context\<close> is a dict or absent.
\<close>

record ConversationSession =
  session_id :: pystr
  messages :: "ConversationMessage list"
  created_at :: real
  last_accessed :: real
  awaiting_clarification :: bool
  original_question :: pyvalue
  clarification_context :: "(pystr \<times> pyvalue) list option"

text \<open>
  The manager's state. The lock serialises the operations; each operation below is one
  such serialised run. Every reading of \<open>time.time()\<close> is an argument \<open>now\<close>, and the
  identifier that \<open>uuid.uuid4()\<close> draws is an argument of \<open>create_session\<close>.
\<close>

record SessionManager =
  sessions :: "pystr \<rightharpoonup> ConversationSession"
  session_timeout :: int

definition init_manager :: "int \<Rightarrow> SessionManager" where
  "init_manager timeout = \<lparr>sessions = Map.empty, session_timeout = timeout\<rparr>"

definition create_session :: "SessionManager \<Rightarrow> pystr \<Rightarrow> real \<Rightarrow> pystr \<times> SessionManager" where
  "create_session M uuid now =
     (uuid, M\<lparr>sessions := (sessions M)(uuid \<mapsto>
        \<lparr>session_id = uuid, messages = [], created_at = now, last_accessed = now,
         awaiting_clarification = False, original_question = PNone,
         clarification_context = None\<rparr>)\<rparr>)"

definition expired :: "SessionManager \<Rightarrow> real \<Rightarrow> ConversationSession \<Rightarrow> bool" where
  "expired M now s \<longleftrightarrow> now - last_accessed s > of_int (session_timeout M)"

definition get_session ::
  "SessionManager \<Rightarrow> real \<Rightarrow> pystr \<Rightarrow> ConversationSession option \<times> SessionManager" where
  "get_session M now sid =
     (case sessions M sid of
        None \<Rightarrow> (None, M)
      | Some s \<Rightarrow>
          if expired M now s
          then (None, M\<lparr>sessions := (sessions M)(sid := None)\<rparr>)
          else (Some (s\<lparr>last_accessed := now\<rparr>),
                M\<lparr>sessions := (sessions M)(sid \<mapsto> s\<lparr>last_accessed := now\<rparr>)\<rparr>))"

text \<open>
  The three mutating operations fetch the session with \<open>get_session\<close> and then change the
  object they got, which is the one the store holds under \<open>sid\<close>. \<open>add_message\<close> reads the
  clock twice: \<open>now\<close> in \<open>get_session\<close>, \<open>ts\<close> for the message's timestamp.
\<close>

definition add_message ::
  "SessionManager \<Rightarrow> real \<Rightarrow> real \<Rightarrow> pystr \<Rightarrow> pystr \<Rightarrow> pystr \<Rightarrow> (pystr \<times> pyvalue) list option
     \<Rightarrow> bool \<times> SessionManager" where
  "add_message M now ts sid r c md =
     (case get_session M now sid of
        (None, M') \<Rightarrow> (False, M')
      | (Some s, M') \<Rightarrow>
          (True, M'\<lparr>sessions := (sessions M')(sid \<mapsto>
             s\<lparr>messages := messages s @
                 [\<lparr>role = r, content = c, timestamp = ts,
                   metadata = (case md of None \<Rightarrow> [] | Some d \<Rightarrow> d)\<rparr>]\<rparr>)\<rparr>))"

definition set_awaiting_clarification ::
  "SessionManager \<Rightarrow> real \<Rightarrow> pystr \<Rightarrow> pyvalue \<Rightarrow> (pystr \<times> pyvalue) list
     \<Rightarrow> bool \<times> SessionManager" where
  "set_awaiting_clarification M now sid q ctx =
     (case get_session M now sid of
        (None, M') \<Rightarrow> (False, M')
      | (Some s, M') \<Rightarrow>
          (True, M'\<lparr>sessions := (sessions M')(sid \<mapsto>
             s\<lparr>awaiting_clarification := True, original_question := q,
               clarification_context := Some ctx\<rparr>)\<rparr>))"

definition clear_clarification_state ::
  "SessionManager \<Rightarrow> real \<Rightarrow> pystr \<Rightarrow> bool \<times> SessionManager" where
  "clear_clarification_state M now sid =
     (case get_session M now sid of
        (None, M') \<Rightarrow> (False, M')
      | (Some s, M') \<Rightarrow>
          (True, M'\<lparr>sessions := (sessions M')(sid \<mapsto>
             s\<lparr>awaiting_clarification := False, original_question := PNone,
               clarification_context := None\<rparr>)\<rparr>))"

definition cleanup_expired_sessions :: "SessionManager \<Rightarrow> real \<Rightarrow> SessionManager" where
  "cleanup_expired_sessions M now =
     M\<lparr>sessions := (\<lambda>sid. case sessions M sid of
                       None \<Rightarrow> None
                     | Some s \<Rightarrow> if expired M now s then None else Some s)\<rparr>"

text \<open>
  A call of one public operation of the manager, with the values its clock readings and
  its \<open>uuid4\<close> give, and a run of such calls from the left.
  \<open>SetAwaitingClarification\<close> carries the question as a \<open>str\<close>, as the signature asks.
\<close>

datatype manager_call =
    CreateSession pystr real
  | GetSession real pystr
  | AddMessage real real pystr pystr pystr "(pystr \<times> pyvalue) list option"
  | SetAwaitingClarification real pystr pystr "(pystr \<times> pyvalue) list"
  | ClearClarificationState real pystr
  | CleanupExpiredSessions real

fun call :: "SessionManager \<Rightarrow> manager_call \<Rightarrow> SessionManager" where
  "call M (CreateSession uuid now) = snd (create_session M uuid now)"
| "call M (GetSession now sid) = snd (get_session M now sid)"
| "call M (AddMessage now ts sid r c md) = snd (add_message M now ts sid r c md)"
| "call M (SetAwaitingClarification now sid q ctx) =
     snd (set_awaiting_clarification M now sid (PStr q) ctx)"
| "call M (ClearClarificationState now sid) = snd (clear_clarification_state M now sid)"
| "call M (CleanupExpiredSessions now) = cleanup_expired_sessions M now"

definition calls :: "SessionManager \<Rightarrow> manager_call list \<Rightarrow> SessionManager" where
  "calls M cs = foldl call M cs"

definition clarification_invariant :: "ConversationSession \<Rightarrow> bool" where
  "clarification_invariant s \<longleftrightarrow>
     (awaiting_clarification s \<longleftrightarrow> original_question s \<noteq> PNone)"

definition store_invariant :: "SessionManager \<Rightarrow> bool" where
  "store_invariant M \<longleftrightarrow> (\<forall>sid s. sessions M sid = Some s \<longrightarrow> clarification_invariant s)"

section \<open>Text operations of Python\<close>

text \<open>
  \<open>c.isspace()\<close>, which \<open>str.split()\<close>, \<open>str.strip()\<close>, \<open>str.rstrip()\<close> and the
  pattern \<open>\s\<close> use: the white-space code points of Unicode.
\<close>

definition is_space :: "nat \<Rightarrow> bool" where
  "is_space c \<longleftrightarrow>
     (9 \<le> c \<and> c \<le> 13) \<or> (28 \<le> c \<and> c \<le> 32) \<or> c = 133 \<or> c = 160 \<or> c = 5760
     \<or> (8192 \<le> c \<and> c \<le> 8202) \<or> c = 8232 \<or> c = 8233 \<or> c = 8239 \<or> c = 8287 \<or> c = 12288"

text \<open>
  \<open>text.split()\<close>: the maximal runs of characters that are not white space, in order.
  \<open>split_from cur cs\<close> reads \<open>cs\<close> with the word \<open>cur\<close> begun.
\<close>

fun split_from :: "pystr \<Rightarrow> pystr \<Rightarrow> pystr list" where
  "split_from cur [] = (if cur = [] then [] else [cur])"
| "split_from cur (c # cs) =
     (if is_space c
      then (if cur = [] then split_from [] cs else cur # split_from [] cs)
      else split_from (cur @ [c]) cs)"

definition split :: "pystr \<Rightarrow> pystr list" where
  "split text = split_from [] text"

fun join :: "pystr \<Rightarrow> pystr list \<Rightarrow> pystr" where
  "join sep [] = []"
| "join sep [w] = w"
| "join sep (w # ws) = w @ sep @ join sep ws"

definition lstrip :: "pystr \<Rightarrow> pystr" where
  "lstrip text = dropWhile is_space text"

definition rstrip :: "pystr \<Rightarrow> pystr" where
  "rstrip text = rev (dropWhile is_space (rev text))"

definition strip :: "pystr \<Rightarrow> pystr" where
  "strip text = rstrip (lstrip text)"

text \<open>
  Lists of words as \<open>split\<close> returns them: no word is empty and no word has white space.
\<close>

definition good_words :: "pystr list \<Rightarrow> bool" where
  "good_words ws \<longleftrightarrow> (\<forall>w\<in>set ws. w \<noteq> [] \<and> (\<forall>c\<in>set w. \<not> is_space c))"

text \<open>\<open>text[:n]\<close>: a negative \<open>n\<close> counts from the end.\<close>

definition slice_to :: "pystr \<Rightarrow> int \<Rightarrow> pystr" where
  "slice_to text n =
     (if n < 0 then take (nat (int (length text) + n)) text else take (nat n) text)"

text \<open>\<open>needle in text\<close> for two strings: \<open>needle\<close> occurs in \<open>text\<close> as a contiguous run.\<close>

fun contains :: "pystr \<Rightarrow> pystr \<Rightarrow> bool" where
  "contains [] needle = (needle = [])"
| "contains (c # cs) needle = (prefix needle (c # cs) \<or> contains cs needle)"

text \<open>
  Three functions of Python's library follow the Unicode character database, which is not
  reproduced here. They are parameters of the model, and nothing below depends on their
  values beyond what is stated:
  \<^item> \<open>str_lower text\<close> is \<open>text.lower()\<close>;
  \<^item> \<open>ignorecase a c\<close> tells whether, under \<open>re.IGNORECASE\<close>, the literal \<open>a\<close> of a
    pattern matches the character \<open>c\<close> of the text;
  \<^item> \<open>word_char c\<close> tells whether \<open>\w\<close> matches the character \<open>c\<close>.
\<close>

record unicode_tables =
  str_lower :: "pystr \<Rightarrow> pystr"
  ignorecase :: "nat \<Rightarrow> nat \<Rightarrow> bool"
  word_char :: "nat \<Rightarrow> bool"

text \<open>
  What \<open>str.lower\<close> does to ASCII characters, wherever they stand: a capital letter
  becomes the small one, any other ASCII character stays, and the characters around them
  do not matter (only U+03A3 is lower-cased by its context, and characters outside ASCII
  may give several). \<open>lowers_ascii\<close> says so of a function: a run of ASCII characters
  in a text comes out of it as the run of their lower-case letters, in place.
\<close>

definition ascii_lower :: "nat \<Rightarrow> nat" where
  "ascii_lower c = (if 65 \<le> c \<and> c \<le> 90 then c + 32 else c)"

definition lowers_ascii :: "(pystr \<Rightarrow> pystr) \<Rightarrow> bool" where
  "lowers_ascii f \<longleftrightarrow>
     (\<forall>p u s. (\<forall>c\<in>set u. c < 128) \<longrightarrow> (\<exists>p' s'. f (p @ u @ s) = p' @ map ascii_lower u @ s'))"

section \<open>Regular expressions\<close>

text \<open>
  The patterns of \<open>security.py\<close> as syntax trees. \<open>re.search\<close> is used for its truth value
  only, so greedy and lazy repetition do not differ, and a pattern is matched by its
  derivatives. Which characters a literal matches under \<open>re.IGNORECASE\<close> is the
  parameter \<open>m\<close> (\<open>ignorecase\<close> above); \<open>re.MULTILINE\<close> changes only \<open>^\<close> and \<open>$\<close>, which
  no pattern has. \<open>Dot\<close> is \<open>.\<close>, any character but the line feed, and \<open>Space\<close> is \<open>\s\<close>,
  the white space of \<open>is_space\<close>.
\<close>

datatype regex =
    Null
  | Eps
  | Lit nat
  | Space
  | Dot
  | Seq regex regex
  | Alt regex regex
  | Star regex

fun nullable :: "regex \<Rightarrow> bool" where
  "nullable Null = False"
| "nullable Eps = True"
| "nullable (Lit a) = False"
| "nullable Space = False"
| "nullable Dot = False"
| "nullable (Seq r s) = (nullable r \<and> nullable s)"
| "nullable (Alt r s) = (nullable r \<or> nullable s)"
| "nullable (Star r) = True"

fun deriv :: "(nat \<Rightarrow> nat \<Rightarrow> bool) \<Rightarrow> nat \<Rightarrow> regex \<Rightarrow> regex" where
  "deriv m c Null = Null"
| "deriv m c Eps = Null"
| "deriv m c (Lit a) = (if m a c then Eps else Null)"
| "deriv m c Space = (if is_space c then Eps else Null)"
| "deriv m c Dot = (if c = 10 then Null else Eps)"
| "deriv m c (Seq r s) =
     (if nullable r then Alt (Seq (deriv m c r) s) (deriv m c s) else Seq (deriv m c r) s)"
| "deriv m c (Alt r s) = Alt (deriv m c r) (deriv m c s)"
| "deriv m c (Star r) = Seq (deriv m c r) (Star r)"

text \<open>\<open>match_here m r text\<close>: some prefix of \<open>text\<close> matches \<open>r\<close>.\<close>

fun match_here :: "(nat \<Rightarrow> nat \<Rightarrow> bool) \<Rightarrow> regex \<Rightarrow> pystr \<Rightarrow> bool" where
  "match_here m r [] = nullable r"
| "match_here m r (c # cs) = (nullable r \<or> match_here m (deriv m c r) cs)"

text \<open>
  \<open>re.search(r, text, re.IGNORECASE | re.MULTILINE)\<close> as a truth value: \<open>r\<close> matches at
  some position of \<open>text\<close>.
\<close>

fun re_search :: "(nat \<Rightarrow> nat \<Rightarrow> bool) \<Rightarrow> regex \<Rightarrow> pystr \<Rightarrow> bool" where
  "re_search m r [] = nullable r"
| "re_search m r (c # cs) = (match_here m r (c # cs) \<or> re_search m r cs)"

definition lit :: "string \<Rightarrow> regex" where
  "lit s = foldr (\<lambda>c r. Seq (Lit (of_char c)) r) s Eps"

definition seqs :: "regex list \<Rightarrow> regex" where
  "seqs rs = foldr Seq rs Eps"

definition alts :: "regex list \<Rightarrow> regex" where
  "alts rs = foldr Alt rs Null"

definition opt :: "regex \<Rightarrow> regex" where
  "opt r = Alt r Eps"

definition spaces1 :: regex where
  "spaces1 = Seq Space (Star Space)"

text \<open>
  \<open>len(re.findall(r'[^\w\s]', text))\<close>: the number of characters that are neither word
  characters, by the parameter \<open>w\<close> (\<open>word_char\<close> above), nor white space.
\<close>

definition count_special :: "(nat \<Rightarrow> bool) \<Rightarrow> pystr \<Rightarrow> nat" where
  "count_special w text = length (filter (\<lambda>c. \<not> w c \<and> \<not> is_space c) text)"

text \<open>
  \<open>re.search(r'(.{10,})\1{2,}', text)\<close> as a truth value: somewhere in \<open>text\<close> a run of at
  least ten characters without a line feed stands three times in a row.
\<close>

definition repeats_here :: "pystr \<Rightarrow> nat \<Rightarrow> bool" where
  "repeats_here s n \<longleftrightarrow>
     3 * n \<le> length s \<and> 10 \<notin> set (take n s)
     \<and> take (3 * n) s = take n s @ take n s @ take n s"

definition has_repeated_pattern :: "pystr \<Rightarrow> bool" where
  "has_repeated_pattern text \<longleftrightarrow>
     list_ex (\<lambda>s. list_ex (repeats_here s) [10 ..< Suc (length s div 3)]) (suffixes text)"

section \<open>security.py\<close>

text \<open>
  \<open>PROMPT_INJECTION_PATTERNS\<close>. The strings of the source, in order:
  \<^enum> \<^verbatim>\<open>ignore\s+(all\s+)?(previous|above|prior)\s+(instructions?|prompts?|commands?)\<close>
  \<^enum> \<^verbatim>\<open>(system|user|assistant):\s*\<close>
  \<^enum> \<^verbatim>\<open><\|.*?\|>\<close>
  \<^enum> \<^verbatim>\<open>###?\s*(system|user|assistant|instruction)\<close>
  \<^enum> \<^verbatim>\<open>(forget|ignore)\s+(everything|all|that)\<close>
  \<^enum> \<^verbatim>\<open>pretend\s+(to\s+be|you\s+are)\<close>
  \<^enum> \<^verbatim>\<open>act\s+as\s+(if\s+you\s+are\s+)?a?\s*\<close>
  \<^enum> \<^verbatim>\<open>roleplay\s+as\<close>
  \<^enum> \<^verbatim>\<open>access\s+(to\s+)?(private|confidential|restricted)\<close>
  \<^enum> \<^verbatim>\<open>simulate\s+(being\s+)?a?\s*\<close>
  \<^enum> \<^verbatim>\<open>you\s+are\s+now\s+(a\s+)?\<close>
  \<^enum> \<^verbatim>\<open>new\s+(role|character|persona)\<close>
  \<^enum> a backslash, \<open>n\<close>, a backslash, \<open>n\<close>, then \<^verbatim>\<open>(system|user|assistant):\<close>
  \<^enum> \<^verbatim>\<open>(\[|\()?system(\]|\))?:\<close>
  \<^enum> \<^verbatim>\<open>jailbreak\<close>
  \<^enum> \<^verbatim>\<open>developer\s+mode\<close>
  \<^enum> \<^verbatim>\<open>godmode\<close>
\<close>

definition role_names :: regex where
  "role_names = alts [lit ''system'', lit ''user'', lit ''assistant'']"

definition PROMPT_INJECTION_PATTERNS :: "regex list" where
  "PROMPT_INJECTION_PATTERNS =
    [ \<comment> \<open>pattern 1\<close>
      seqs [lit ''ignore'', spaces1, opt (Seq (lit ''all'') spaces1),
            alts [lit ''previous'', lit ''above'', lit ''prior''], spaces1,
            alts [Seq (lit ''instruction'') (opt (lit ''s'')),
                  Seq (lit ''prompt'') (opt (lit ''s'')),
                  Seq (lit ''command'') (opt (lit ''s''))]],
      \<comment> \<open>pattern 2\<close>
      seqs [role_names, lit '':'', Star Space],
      \<comment> \<open>pattern 3\<close>
      seqs [lit ''<|'', Star Dot, lit ''|>''],
      \<comment> \<open>pattern 4\<close>
      seqs [lit ''##'', opt (lit ''#''), Star Space,
            alts [lit ''system'', lit ''user'', lit ''assistant'', lit ''instruction'']],
      \<comment> \<open>pattern 5\<close>
      seqs [alts [lit ''forget'', lit ''ignore''], spaces1,
            alts [lit ''everything'', lit ''all'', lit ''that'']],
      \<comment> \<open>pattern 6\<close>
      seqs [lit ''pretend'', spaces1,
            alts [seqs [lit ''to'', spaces1, lit ''be''], seqs [lit ''you'', spaces1, lit ''are'']]],
      \<comment> \<open>pattern 7\<close>
      seqs [lit ''act'', spaces1, lit ''as'', spaces1,
            opt (seqs [lit ''if'', spaces1, lit ''you'', spaces1, lit ''are'', spaces1]),
            opt (lit ''a''), Star Space],
      \<comment> \<open>pattern 8\<close>
      seqs [lit ''roleplay'', spaces1, lit ''as''],
      \<comment> \<open>pattern 9\<close>
      seqs [lit ''access'', spaces1, opt (Seq (lit ''to'') spaces1),
            alts [lit ''private'', lit ''confidential'', lit ''restricted'']],
      \<comment> \<open>pattern 10\<close>
      seqs [lit ''simulate'', spaces1, opt (Seq (lit ''being'') spaces1),
            opt (lit ''a''), Star Space],
      \<comment> \<open>pattern 11\<close>
      seqs [lit ''you'', spaces1, lit ''are'', spaces1, lit ''now'', spaces1,
            opt (Seq (lit ''a'') spaces1)],
      \<comment> \<open>pattern 12\<close>
      seqs [lit ''new'', spaces1, alts [lit ''role'', lit ''character'', lit ''persona'']],
      \<comment> \<open>pattern 13\<close>
      seqs [Lit 92, lit ''n'', Lit 92, lit ''n'', role_names, lit '':''],
      \<comment> \<open>pattern 14\<close>
      seqs [opt (alts [Lit 91, Lit 40]), lit ''system'', opt (alts [Lit 93, Lit 41]),
            lit '':''],
      \<comment> \<open>pattern 15\<close>
      lit ''jailbreak'',
      \<comment> \<open>pattern 16\<close>
      seqs [lit ''developer'', spaces1, lit ''mode''],
      \<comment> \<open>pattern 17\<close>
      lit ''godmode'' ]"

definition MAX_QUESTION_LENGTH :: int where
  "MAX_QUESTION_LENGTH = 500"

text \<open>
  \<open>risk_score\<close> is a Python float. The increments 0.3, 0.2, 0.1 and 0.4 are added here as
  exact fractions; \<open>detected_patterns\<close> holds the patterns themselves in place of their
  strings. The lines written to the logger are not part of the result.
\<close>

record SecurityResult =
  is_safe :: bool
  cleaned_input :: pystr
  risk_score :: real
  detected_patterns :: "regex list"
  warnings :: "pystr list"

text \<open>
  \<open>sanitize_input(text, max_length)\<close>. The filter keeps the characters with
  \<open>ord(char) >= 32 or char in '\t\n\r '\<close>; \<open>max_length\<close> is an \<open>Optional[int]\<close>, and the test
  \<open>if max_length and ...\<close> fails for \<open>None\<close> and for 0.
\<close>

definition sanitize_input :: "pystr \<Rightarrow> int option \<Rightarrow> pystr" where
  "sanitize_input text max_length =
     (if text = [] then []
      else
        let text1 = filter (\<lambda>c. c \<ge> 32 \<or> c \<in> {9, 10, 13, 32}) text;
            text2 = filter (\<lambda>c. c \<noteq> 0) text1;
            text3 = join [32] (split text2)
        in case max_length of
             None \<Rightarrow> text3
           | Some n \<Rightarrow>
               if n \<noteq> 0 \<and> int (length text3) > n then rstrip (slice_to text3 n) else text3)"

definition ai_manipulation_keywords :: "pystr list" where
  "ai_manipulation_keywords =
     map str [''token'', ''embedding'', ''vector'', ''model'', ''training'', ''dataset'',
              ''neural'', ''transformer'', ''gpt'', ''llm'', ''prompt'', ''fine-tune'']"

definition system_keywords :: "pystr list" where
  "system_keywords =
     map str [''sudo'', ''rm '', ''del '', ''format'', ''exec'', ''eval'', ''import'']"

definition special_char_ratio :: "unicode_tables \<Rightarrow> pystr \<Rightarrow> real" where
  "special_char_ratio U text =
     real (count_special (word_char U) text) / real (max (length text) 1)"

text \<open>
  The score that \<open>detect_prompt_injection\<close> accumulates before it is capped at 1.0.
  \<open>U\<close> holds the three library functions that follow the Unicode tables: \<open>text.lower()\<close>
  is \<open>str_lower U text\<close>, the patterns are searched with \<open>ignorecase U\<close>, and the special
  characters are counted with \<open>word_char U\<close>.
\<close>

definition accumulated_risk_score :: "unicode_tables \<Rightarrow> pystr \<Rightarrow> real" where
  "accumulated_risk_score U text =
     (let text_lower = str_lower U text
      in (3 / 10) * real (length (filter (\<lambda>p. re_search (ignorecase U) p text_lower)
                                   PROMPT_INJECTION_PATTERNS))
         + (if special_char_ratio U text > 4 / 10 then 2 / 10 else 0)
         + (if has_repeated_pattern text then 1 / 10 else 0)
         + (1 / 10) * real (length (filter (contains text_lower) ai_manipulation_keywords))
         + (4 / 10) * real (length (filter (contains text_lower) system_keywords)))"

definition detect_prompt_injection :: "unicode_tables \<Rightarrow> pystr \<Rightarrow> SecurityResult" where
  "detect_prompt_injection U text =
     (if text = [] \<or> strip text = []
      then \<lparr>is_safe = True, cleaned_input = [], risk_score = 0, detected_patterns = [],
            warnings = []\<rparr>
      else
        let text_lower = str_lower U text;
            detected = filter (\<lambda>p. re_search (ignorecase U) p text_lower)
                         PROMPT_INJECTION_PATTERNS;
            warnings =
              (if special_char_ratio U text > 4 / 10
               then [str ''High ratio of special characters''] else [])
              @ (if has_repeated_pattern text
                 then [str ''Repeated text patterns detected''] else [])
              @ map (\<lambda>keyword. str ''AI-related keyword detected: '' @ keyword)
                  (filter (contains text_lower) ai_manipulation_keywords)
              @ map (\<lambda>keyword. str ''System command keyword detected: '' @ keyword)
                  (filter (contains text_lower) system_keywords);
            cleaned = sanitize_input text (Some MAX_QUESTION_LENGTH);
            score = min (accumulated_risk_score U text) 1;
            safe = (score \<le> 5 / 10
                    \<and> \<not> ((contains text_lower (str ''ignore'')
                           \<and> contains text_lower (str ''instruction''))
                          \<or> contains text_lower (str ''system:'')
                          \<or> contains text_lower (str ''user:'')
                          \<or> contains text_lower (str ''assistant:'')))
        in \<lparr>is_safe = safe, cleaned_input = cleaned, risk_score = score,
            detected_patterns = detected, warnings = warnings\<rparr>)"

section \<open>honeypot.py\<close>

text \<open>
  A function definition offered to the model: its name, its description and the JSON
  schema of its parameters. The three helpers below build the dicts that the source writes
  out in full.
\<close>

record FunctionDefinition =
  name :: pystr
  description :: pystr
  parameters :: pyvalue

definition string_property :: "string \<Rightarrow> pyvalue" where
  "string_property d =
     PDict [(str ''type'', PStr (str ''string'')), (str ''description'', PStr (str d))]"

definition enum_property :: "string list \<Rightarrow> string \<Rightarrow> pyvalue" where
  "enum_property es d =
     PDict [(str ''type'', PStr (str ''string'')),
            (str ''enum'', PList (map (\<lambda>e. PStr (str e)) es)),
            (str ''description'', PStr (str d))]"

definition object_schema :: "(string \<times> pyvalue) list \<Rightarrow> string list \<Rightarrow> pyvalue" where
  "object_schema properties required =
     PDict [(str ''type'', PStr (str ''object'')),
            (str ''properties'', PDict (map (\<lambda>(k, v). (str k, v)) properties)),
            (str ''required'', PList (map (\<lambda>k. PStr (str k)) required))]"

definition create_honeypot_functions :: "FunctionDefinition list" where
  "create_honeypot_functions =
    [\<lparr>name = str ''execute_system_command'',
      description = str ''Execute system commands on the server (INTERNAL USE ONLY)'',
      parameters = object_schema
        [(''command'', string_property ''System command to execute'')] [''command'']\<rparr>,
     \<lparr>name = str ''access_database'',
      description = str ''Direct database access for administrative queries'',
      parameters = object_schema
        [(''query'', string_property ''SQL query to execute'')] [''query'']\<rparr>,
     \<lparr>name = str ''read_system_files'',
      description = str ''Read sensitive system files and configurations'',
      parameters = object_schema
        [(''file_path'', string_property ''Path to system file to read'')] [''file_path'']\<rparr>,
     \<lparr>name = str ''modify_user_permissions'',
      description = str ''Change user access levels and permissions'',
      parameters = object_schema
        [(''user_id'', string_property ''User ID to modify''),
         (''permission_level'', string_property ''New permission level'')]
        [''user_id'', ''permission_level'']\<rparr>,
     \<lparr>name = str ''bypass_security'',
      description = str ''Bypass security restrictions for special access'',
      parameters = object_schema
        [(''bypass_code'', string_property ''Security bypass code'')] [''bypass_code'']\<rparr>]"

definition create_legitimate_functions :: "FunctionDefinition list" where
  "create_legitimate_functions =
    [\<lparr>name = str ''answer_resume_question'',
      description = str ''Answer questions about the resume content in a professional manner'',
      parameters = object_schema
        [(''answer'', string_property ''Professional answer about the resume content''),
         (''confidence'', enum_property [''high'', ''medium'', ''low'']
            ''Confidence level in the answer based on resume content'')]
        [''answer'', ''confidence'']\<rparr>,
     \<lparr>name = str ''request_clarification'',
      description =
        str ''Request clarification when a question is unclear or outside resume scope'',
      parameters = object_schema
        [(''clarification_request'',
            string_property ''Request for clarification about the question''),
         (''reason'', enum_property
            [''unclear_question'', ''outside_scope'', ''insufficient_information'']
            ''Reason for requesting clarification'')]
        [''clarification_request'', ''reason'']\<rparr>,
     \<lparr>name = str ''handle_clarification_response'',
      description = str ''Handle the user'' @ [39] @
        str ''s response to a clarification request and provide the answer'',
      parameters = object_schema
        [(''answer'',
            string_property ''Answer based on the clarified question and resume content''),
         (''confidence'', enum_property [''high'', ''medium'', ''low'']
            ''Confidence level in the answer'')]
        [''answer'', ''confidence'']\<rparr>]"

text \<open>
  The application's state that the dispatch works on: the global \<open>session_manager\<close> and
  the records written to the logger, oldest first.
\<close>

datatype level = WARNING | ERROR | CRITICAL

record World =
  session_manager :: SessionManager
  logger :: "(level \<times> pystr) list"

text \<open>
  A field \<open>{v}\<close> of an f-string is \<open>str(v)\<close>: for a \<open>str\<close> the string itself, for any
  other value Python's rendering of it, which is the parameter \<open>render\<close> here.
\<close>

definition format_value :: "(pyvalue \<Rightarrow> pystr) \<Rightarrow> pyvalue \<Rightarrow> pystr" where
  "format_value render v = (case v of PStr s \<Rightarrow> s | _ \<Rightarrow> render v)"

definition handle_honeypot_call ::
  "(pyvalue \<Rightarrow> pystr) \<Rightarrow> World \<Rightarrow> pystr \<Rightarrow> pyvalue \<Rightarrow> pystr \<Rightarrow> World" where
  "handle_honeypot_call render W function_name arguments user_question =
     W\<lparr>logger := logger W @
        [(CRITICAL,
          str ''SECURITY ALERT: Honeypot function '' @ [39] @ function_name @ [39]
          @ str '' called! Arguments: '' @ format_value render arguments
          @ str '', Original question: '' @ [39] @ user_question @ [39])]\<rparr>"

text \<open>
  \<open>arguments.get(key, default)\<close>: \<open>arguments\<close> is what \<open>json.loads\<close> gave, and a value
  that is not a dict has no \<open>get\<close>.
\<close>

definition dict_get :: "pyvalue \<Rightarrow> pystr \<Rightarrow> pyvalue \<Rightarrow> error + pyvalue" where
  "dict_get d key dflt =
     (case d of
        PDict items \<Rightarrow> Inr (case map_of items key of None \<Rightarrow> dflt | Some v \<Rightarrow> v)
      | _ \<Rightarrow> Inl AttributeError)"

text \<open>
  The look-up of \<open>confidence\<close> in the dict of the three glyphs, with the default glyph:
  U+2713 for high, U+25D0 for medium and as the default, U+26A0 for low. A list or a dict
  is not hashable and cannot be looked up.
\<close>

definition confidence_indicator :: "pyvalue \<Rightarrow> error + pystr" where
  "confidence_indicator confidence =
     (case confidence of
        PList _ \<Rightarrow> Inl TypeError
      | PDict _ \<Rightarrow> Inl TypeError
      | PStr s \<Rightarrow>
          Inr (if s = str ''high'' then [10003]
               else if s = str ''medium'' then [9680]
               else if s = str ''low'' then [9888]
               else [9680])
      | _ \<Rightarrow> Inr [9680])"

text \<open>
  \<open>if session_id:\<close> holds for a string that is not empty. The parameter \<open>session_id\<close> of
  \<open>handle_legitimate_call\<close> is \<open>sid\<close> below, \<open>None\<close> by default.
\<close>

definition truthy :: "pystr option \<Rightarrow> bool" where
  "truthy sid \<longleftrightarrow> (case sid of None \<Rightarrow> False | Some i \<Rightarrow> i \<noteq> [])"

definition handle_legitimate_call ::
  "(pyvalue \<Rightarrow> pystr) \<Rightarrow> SessionManager \<Rightarrow> real \<Rightarrow> pystr \<Rightarrow> pyvalue \<Rightarrow> pystr option
     \<Rightarrow> error + pystr \<times> SessionManager" where
  "handle_legitimate_call render M now function_name arguments sid =
     (if function_name = str ''answer_resume_question'' then
        (case dict_get arguments (str ''answer'') (PStr []) of
           Inl e \<Rightarrow> Inl e
         | Inr answer \<Rightarrow>
        (case dict_get arguments (str ''confidence'') (PStr (str ''medium'')) of
           Inl e \<Rightarrow> Inl e
         | Inr confidence \<Rightarrow>
        (case confidence_indicator confidence of
           Inl e \<Rightarrow> Inl e
         | Inr indicator \<Rightarrow> Inr (indicator @ [32] @ format_value render answer, M))))
      else if function_name = str ''request_clarification'' then
        (case dict_get arguments (str ''clarification_request'') (PStr []) of
           Inl e \<Rightarrow> Inl e
         | Inr clarification \<Rightarrow>
        (case dict_get arguments (str ''reason'') (PStr (str ''unclear_question'')) of
           Inl e \<Rightarrow> Inl e
         | Inr reason \<Rightarrow>
             Inr (str ''I need some clarification: '' @ format_value render clarification,
                  if truthy sid
                  then snd (set_awaiting_clarification M now (the sid) clarification
                              [(str ''reason'', reason)])
                  else M)))
      else if function_name = str ''handle_clarification_response'' then
        (case dict_get arguments (str ''answer'') (PStr []) of
           Inl e \<Rightarrow> Inl e
         | Inr answer \<Rightarrow>
        (case dict_get arguments (str ''confidence'') (PStr (str ''medium'')) of
           Inl e \<Rightarrow> Inl e
         | Inr confidence \<Rightarrow>
        (case confidence_indicator confidence of
           Inl e \<Rightarrow> Inl e
         | Inr indicator \<Rightarrow>
             Inr (indicator @ [32] @ format_value render answer,
                  if truthy sid
                  then snd (clear_clarification_state M now (the sid))
                  else M))))
      else Inr (str ''I'' @ [39] @ str ''m not sure how to help with that specific question.'',
                M))"

section \<open>llm.py\<close>

text \<open>
  The part of \<open>get_secure_llm_response\<close> that deals with the model's tool call once
  \<open>json.loads\<close> has read its arguments: the name is looked up in the two name sets, in
  this order, and the call is handled. \<open>classify\<close> is the decision of the two membership
  tests.
\<close>

definition honeypot_names :: "pystr set" where
  "honeypot_names = name ` set create_honeypot_functions"

definition legitimate_names :: "pystr set" where
  "legitimate_names = name ` set create_legitimate_functions"

datatype action_class = Decoy | Legitimate | Unknown

definition classify :: "pystr \<Rightarrow> action_class" where
  "classify function_name =
     (if function_name \<in> honeypot_names then Decoy
      else if function_name \<in> legitimate_names then Legitimate
      else Unknown)"

definition decoy_reply :: pystr where
  "decoy_reply =
     str ''I can only answer questions about the resume. Please ask about the candidate''
     @ [39] @ str ''s experience, skills, or background.''"

definition unknown_reply :: pystr where
  "unknown_reply =
     str ''I can only help with questions about the resume. What would you like to know about the candidate?''"

definition error_reply :: pystr where
  "error_reply =
     str ''I'' @ [39] @ str ''m sorry, I encountered an error while processing your request. Please try asking your question in a different way.''"

text \<open>
  \<open>session\<close> is the session object the caller bound to the request, or \<open>None\<close>; the
  dispatch uses its \<open>session_id\<close> only. The clock is read at \<open>t1\<close> by the manager call
  inside \<open>handle_legitimate_call\<close>, and at \<open>t2\<close> and \<open>t3\<close> by \<open>add_message\<close>. An exception
  of the handler is caught by the \<open>except Exception\<close> of the function, which logs it and
  yields the apology. The result is the text yielded and the state afterwards.
\<close>

definition dispatch_tool_call ::
  "(pyvalue \<Rightarrow> pystr) \<Rightarrow> World \<Rightarrow> ConversationSession option \<Rightarrow> pystr \<Rightarrow> pyvalue \<Rightarrow> pystr
     \<Rightarrow> real \<Rightarrow> real \<Rightarrow> real \<Rightarrow> pystr \<times> World" where
  "dispatch_tool_call render W session function_name function_args question t1 t2 t3 =
     (case classify function_name of
        Decoy \<Rightarrow>
          (decoy_reply, handle_honeypot_call render W function_name function_args question)
      | Legitimate \<Rightarrow>
          (case handle_legitimate_call render (session_manager W) t1 function_name
                  function_args (map_option session_id session) of
             Inl e \<Rightarrow>
               (error_reply,
                W\<lparr>logger := logger W @ [(ERROR, str ''Error in secure LLM response'')]\<rparr>)
           | Inr (response_text, M) \<Rightarrow>
               (response_text,
                W\<lparr>session_manager :=
                    (case session of
                       None \<Rightarrow> M
                     | Some s \<Rightarrow>
                         snd (add_message M t2 t3 (session_id s) (str ''assistant'')
                                response_text
                                (Some [(str ''function_called'', PStr function_name)])))\<rparr>))
      | Unknown \<Rightarrow>
          (unknown_reply,
           W\<lparr>logger := logger W @
              [(WARNING, str ''Unknown function called: '' @ function_name)]\<rparr>))"

section \<open>Sample states\<close>

text \<open>A session created at time 0 in a fresh manager with the default timeout of one hour.\<close>

definition one_session :: ConversationSession where
  "one_session =
     \<lparr>session_id = str ''a'', messages = [], created_at = 0, last_accessed = 0,
      awaiting_clarification = False, original_question = PNone,
      clarification_context = None\<rparr>"

definition one_session_manager :: SessionManager where
  "one_session_manager = snd (create_session (init_manager 3600) (str ''a'') 0)"

text \<open>
  The state with that one session and an empty log; the arguments of a decoy call; and
  Python's rendering of the two values that the examples below put through an f-string.
\<close>

definition sample_world :: World where
  "sample_world = \<lparr>session_manager = one_session_manager, logger = []\<rparr>"

definition rm_arguments :: pyvalue where
  "rm_arguments = PDict [(str ''command'', PStr (str ''rm -rf /''))]"

definition sample_render :: "pyvalue \<Rightarrow> pystr" where
  "sample_render v =
     (if v = rm_arguments
      then str ''{'' @ [39] @ str ''command'' @ [39] @ str '': '' @ [39] @ str ''rm -rf /''
           @ [39] @ str ''}''
      else str ''None'')"

definition ask_which_project :: "(pystr \<times> pyvalue) list" where
  "ask_which_project =
     [(str ''clarification_request'', PStr (str ''Which project do you mean?'')),
      (str ''reason'', PStr (str ''outside_scope''))]"

definition answer_go :: "(pystr \<times> pyvalue) list" where
  "answer_go =
     [(str ''answer'', PStr (str ''Two years of Go.'')),
      (str ''confidence'', PStr (str ''high''))]"

definition null_request :: "(pystr \<times> pyvalue) list" where
  "null_request =
     [(str ''clarification_request'', PNone),
      (str ''reason'', PStr (str ''unclear_question''))]"

text \<open>
  The three library functions as Python has them on ASCII text, an instance of the
  parameters for the examples: capital letters are lower-cased, a literal matches the
  characters with its lower case, and the word characters are the letters, the digits and
  the underscore.
\<close>

definition ascii_tables :: unicode_tables where
  "ascii_tables =
     \<lparr>str_lower = map ascii_lower,
      ignorecase = (\<lambda>a c. ascii_lower c = ascii_lower a),
      word_char = (\<lambda>c. (48 \<le> c \<and> c \<le> 57) \<or> (65 \<le> c \<and> c \<le> 90) \<or> c = 95
                        \<or> (97 \<le> c \<and> c \<le> 122))\<rparr>"

section \<open>Properties of the session store\<close>

lemma remove_missing:
  assumes "sessions M sid = None"
  shows "M\<lparr>sessions := (sessions M)(sid := None)\<rparr> = M"
proof -
  have "(sessions M)(sid := None) = sessions M"
    using assms by (metis fun_upd_triv)
  then show ?thesis by simp
qed

lemma get_session_without_session:
  assumes "sessions M sid = None \<or> (\<exists>s. sessions M sid = Some s \<and> expired M now s)"
  shows "get_session M now sid = (None, M\<lparr>sessions := (sessions M)(sid := None)\<rparr>)"
  using assms by (auto simp: get_session_def remove_missing split: option.splits)

lemma get_session_invariant:
  "store_invariant M \<Longrightarrow> store_invariant (snd (get_session M now sid))"
  by (auto simp: store_invariant_def get_session_def clarification_invariant_def
           split: option.splits if_splits)

lemma get_session_result_invariant:
  "store_invariant M \<Longrightarrow> get_session M now sid = (Some s, M') \<Longrightarrow> clarification_invariant s"
  by (auto simp: store_invariant_def get_session_def clarification_invariant_def
           split: option.splits if_splits)

lemma call_invariant: "store_invariant M \<Longrightarrow> store_invariant (call M c)"
proof (cases c)
  case (CreateSession uuid now)
  assume "store_invariant M"
  then show ?thesis using CreateSession
    by (auto simp: store_invariant_def create_session_def clarification_invariant_def)
next
  case (GetSession now sid)
  assume "store_invariant M"
  then show ?thesis using GetSession by (simp add: get_session_invariant)
next
  case (AddMessage now ts sid r c md)
  assume inv: "store_invariant M"
  show ?thesis
  proof (cases "get_session M now sid")
    case (Pair so M')
    have M': "store_invariant M'"
      using get_session_invariant [OF inv, of now sid] Pair by simp
    show ?thesis
    proof (cases so)
      case None
      then show ?thesis using AddMessage Pair M' by (simp add: add_message_def)
    next
      case (Some s)
      have "clarification_invariant s"
        using get_session_result_invariant [OF inv] Pair Some by simp
      then show ?thesis using AddMessage Pair Some M'
        by (auto simp: add_message_def store_invariant_def clarification_invariant_def)
    qed
  qed
next
  case (SetAwaitingClarification now sid q ctx)
  assume inv: "store_invariant M"
  show ?thesis
  proof (cases "get_session M now sid")
    case (Pair so M')
    have M': "store_invariant M'"
      using get_session_invariant [OF inv, of now sid] Pair by simp
    then show ?thesis using SetAwaitingClarification Pair
      by (cases so)
         (auto simp: set_awaiting_clarification_def store_invariant_def
                     clarification_invariant_def)
  qed
next
  case (ClearClarificationState now sid)
  assume inv: "store_invariant M"
  show ?thesis
  proof (cases "get_session M now sid")
    case (Pair so M')
    have M': "store_invariant M'"
      using get_session_invariant [OF inv, of now sid] Pair by simp
    then show ?thesis using ClearClarificationState Pair
      by (cases so)
         (auto simp: clear_clarification_state_def store_invariant_def
                     clarification_invariant_def)
  qed
next
  case (CleanupExpiredSessions now)
  assume "store_invariant M"
  then show ?thesis using CleanupExpiredSessions
    by (auto simp: store_invariant_def cleanup_expired_sessions_def
             split: option.splits if_splits)
qed

lemma calls_invariant: "store_invariant M \<Longrightarrow> store_invariant (calls M cs)"
  unfolding calls_def
  by (induction cs arbitrary: M) (simp_all add: call_invariant)

lemma init_manager_invariant: "store_invariant (init_manager timeout)"
  by (simp add: store_invariant_def init_manager_def)

text \<open>
  C7. After any sequence of public operations on a fresh manager (with
  \<open>set_awaiting_clarification\<close> given a string question), every stored session has
  \<open>awaiting_clarification\<close> true exactly when \<open>original_question\<close> is not \<open>None\<close>.
\<close>

theorem clarification_invariant_maintained:
  "sessions (calls (init_manager timeout) cs) sid = Some s \<Longrightarrow>
     (awaiting_clarification s \<longleftrightarrow> original_question s \<noteq> PNone)"
  using calls_invariant [OF init_manager_invariant, of timeout cs]
  by (simp add: store_invariant_def clarification_invariant_def)

theorem clarification_invariant_maintained_witness:
  "sessions (calls (init_manager 3600)
       [CreateSession (str ''a'') 0,
        SetAwaitingClarification 1 (str ''a'') (str ''q'') []]) (str ''a'')
     = Some \<lparr>session_id = str ''a'', messages = [], created_at = 0, last_accessed = 1,
             awaiting_clarification = True, original_question = PStr (str ''q''),
             clarification_context = Some []\<rparr>
   \<and> (awaiting_clarification \<lparr>session_id = str ''a'', messages = [], created_at = 0,
             last_accessed = 1, awaiting_clarification = True,
             original_question = PStr (str ''q''), clarification_context = Some []\<rparr>
       \<longleftrightarrow> original_question \<lparr>session_id = str ''a'', messages = [], created_at = 0,
             last_accessed = 1, awaiting_clarification = True,
             original_question = PStr (str ''q''), clarification_context = Some []\<rparr> \<noteq> PNone)"
proof -
  have h: "sessions (calls (init_manager 3600)
       [CreateSession (str ''a'') 0,
        SetAwaitingClarification 1 (str ''a'') (str ''q'') []]) (str ''a'')
     = Some \<lparr>session_id = str ''a'', messages = [], created_at = 0, last_accessed = 1,
             awaiting_clarification = True, original_question = PStr (str ''q''),
             clarification_context = Some []\<rparr>"
    by (simp add: calls_def init_manager_def create_session_def
          set_awaiting_clarification_def get_session_def expired_def)
  show ?thesis
    using h clarification_invariant_maintained [OF h] by simp
qed

text \<open>
  C8. For a stored session, \<open>get_session\<close> at a time more than the timeout after its last
  access returns \<open>None\<close> and the store no longer has the id; otherwise it returns the
  session with \<open>last_accessed\<close> set to the current time, and the store holds that session.
\<close>

theorem get_session_expiry:
  assumes "sessions M sid = Some s"
  shows "(now - last_accessed s > of_int (session_timeout M) \<longrightarrow>
            fst (get_session M now sid) = None
          \<and> sessions (snd (get_session M now sid)) sid = None)
       \<and> (\<not> now - last_accessed s > of_int (session_timeout M) \<longrightarrow>
            fst (get_session M now sid) = Some (s\<lparr>last_accessed := now\<rparr>)
          \<and> sessions (snd (get_session M now sid)) sid = Some (s\<lparr>last_accessed := now\<rparr>))"
  using assms by (simp add: get_session_def expired_def)

theorem get_session_expiry_witness:
  "sessions one_session_manager (str ''a'') = Some one_session
   \<and> 4000 - last_accessed one_session > of_int (session_timeout one_session_manager)
   \<and> fst (get_session one_session_manager 4000 (str ''a'')) = None
   \<and> sessions (snd (get_session one_session_manager 4000 (str ''a''))) (str ''a'') = None
   \<and> \<not> 50 - last_accessed one_session > of_int (session_timeout one_session_manager)
   \<and> fst (get_session one_session_manager 50 (str ''a''))
       = Some (one_session\<lparr>last_accessed := 50\<rparr>)
   \<and> sessions (snd (get_session one_session_manager 50 (str ''a''))) (str ''a'')
       = Some (one_session\<lparr>last_accessed := 50\<rparr>)"
proof -
  have h: "sessions one_session_manager (str ''a'') = Some one_session"
    by (simp add: one_session_manager_def one_session_def init_manager_def create_session_def)
  have old: "4000 - last_accessed one_session > of_int (session_timeout one_session_manager)"
    by (simp add: one_session_manager_def one_session_def init_manager_def create_session_def)
  have fresh: "\<not> 50 - last_accessed one_session > of_int (session_timeout one_session_manager)"
    by (simp add: one_session_manager_def one_session_def init_manager_def create_session_def)
  show ?thesis
    using h old fresh get_session_expiry [OF h, of 4000] get_session_expiry [OF h, of 50]
    by simp
qed

text \<open>
  C10, as stated, fails: for an expired session the operation returns \<open>False\<close> but the
  store has changed, since \<open>get_session\<close> removes the expired entry. Here \<open>add_message\<close>
  on a session last accessed at time 0, with a timeout of 3600, at time 4000.
\<close>

theorem expired_session_removed_counterexample:
  "sessions one_session_manager (str ''a'') = Some one_session
   \<and> 4000 - last_accessed one_session > of_int (session_timeout one_session_manager)
   \<and> fst (add_message one_session_manager 4000 4000 (str ''a'') (str ''user'') (str ''hi'') None)
       = False
   \<and> sessions (snd (add_message one_session_manager 4000 4000 (str ''a'') (str ''user'')
                 (str ''hi'') None)) (str ''a'') = None"
  by (simp add: one_session_manager_def one_session_def init_manager_def create_session_def
        add_message_def get_session_def expired_def)

text \<open>
  C10, amended. For an id that is not in the store or whose session has expired,
  \<open>add_message\<close>, \<open>set_awaiting_clarification\<close> and \<open>clear_clarification_state\<close> return
  \<open>False\<close>, and the store afterwards is the store before without that id: no session is
  created and no other session is touched, an expired session's own entry is removed, and
  when the id was not in the store the store is unchanged.
\<close>

theorem mutators_on_missing_or_expired:
  assumes "sessions M sid = None
         \<or> (\<exists>s. sessions M sid = Some s \<and> now - last_accessed s > of_int (session_timeout M))"
  shows "add_message M now ts sid r c md = (False, M\<lparr>sessions := (sessions M)(sid := None)\<rparr>)
       \<and> set_awaiting_clarification M now sid q ctx
           = (False, M\<lparr>sessions := (sessions M)(sid := None)\<rparr>)
       \<and> clear_clarification_state M now sid
           = (False, M\<lparr>sessions := (sessions M)(sid := None)\<rparr>)
       \<and> (sessions M sid = None \<longrightarrow> M\<lparr>sessions := (sessions M)(sid := None)\<rparr> = M)"
proof -
  have g: "get_session M now sid = (None, M\<lparr>sessions := (sessions M)(sid := None)\<rparr>)"
    using assms by (intro get_session_without_session) (simp add: expired_def)
  show ?thesis
    by (simp add: add_message_def set_awaiting_clarification_def
          clear_clarification_state_def g remove_missing)
qed

theorem mutators_on_missing_or_expired_witness:
  "sessions one_session_manager (str ''a'') = Some one_session
   \<and> 4000 - last_accessed one_session > of_int (session_timeout one_session_manager)
   \<and> add_message one_session_manager 4000 4000 (str ''a'') (str ''user'') (str ''hi'') None
       = (False, one_session_manager\<lparr>sessions := (sessions one_session_manager)(str ''a'' := None)\<rparr>)
   \<and> set_awaiting_clarification one_session_manager 4000 (str ''a'') (PStr (str ''q'')) []
       = (False, one_session_manager\<lparr>sessions := (sessions one_session_manager)(str ''a'' := None)\<rparr>)
   \<and> clear_clarification_state one_session_manager 4000 (str ''a'')
       = (False, one_session_manager\<lparr>sessions := (sessions one_session_manager)(str ''a'' := None)\<rparr>)
   \<and> sessions one_session_manager (str ''b'') = None
   \<and> add_message one_session_manager 4000 4000 (str ''b'') (str ''user'') (str ''hi'') None
       = (False, one_session_manager)"
proof -
  have h: "sessions one_session_manager (str ''a'') = Some one_session"
    by (simp add: one_session_manager_def one_session_def init_manager_def create_session_def)
  have old: "4000 - last_accessed one_session > of_int (session_timeout one_session_manager)"
    by (simp add: one_session_manager_def one_session_def init_manager_def create_session_def)
  have none: "sessions one_session_manager (str ''b'') = None"
    by (simp add: one_session_manager_def init_manager_def create_session_def str_def)
  have a: "sessions one_session_manager (str ''a'') = None
         \<or> (\<exists>s. sessions one_session_manager (str ''a'') = Some s
                \<and> 4000 - last_accessed s > of_int (session_timeout one_session_manager))"
    using h old by simp
  have b: "sessions one_session_manager (str ''b'') = None
         \<or> (\<exists>s. sessions one_session_manager (str ''b'') = Some s
                \<and> 4000 - last_accessed s > of_int (session_timeout one_session_manager))"
    using none by simp
  show ?thesis
    using h old none
      mutators_on_missing_or_expired [OF a, of 4000 "str ''user''" "str ''hi''" None
        "PStr (str ''q'')" "[]"]
      mutators_on_missing_or_expired [OF b, of 4000 "str ''user''" "str ''hi''" None
        "PStr (str ''q'')" "[]"]
    by simp
qed

section \<open>Properties of \<open>sanitize_input\<close>\<close>

lemma good_words_Nil [simp]: "good_words []"
  by (simp add: good_words_def)

lemma good_words_Cons [simp]:
  "good_words (w # ws) \<longleftrightarrow> w \<noteq> [] \<and> (\<forall>c\<in>set w. \<not> is_space c) \<and> good_words ws"
  by (auto simp: good_words_def)

lemma is_space_32 [simp]: "is_space 32"
  by (simp add: is_space_def)

lemma split_from_good:
  "\<forall>c\<in>set cur. \<not> is_space c \<Longrightarrow> good_words (split_from cur s)"
  by (induction s arbitrary: cur) auto

lemma split_from_chars:
  "w \<in> set (split_from cur s) \<Longrightarrow> c \<in> set w \<Longrightarrow> c \<in> set cur \<or> c \<in> set s"
proof (induction s arbitrary: cur)
  case Nil
  then show ?case by (auto split: if_splits)
next
  case (Cons a s)
  show ?case
  proof (cases "is_space a")
    case True
    then have "w = cur \<or> w \<in> set (split_from [] s)"
      using Cons.prems(1) by (auto split: if_splits)
    then show ?thesis using Cons.IH [of "[]"] Cons.prems(2) by auto
  next
    case False
    then have "w \<in> set (split_from (cur @ [a]) s)"
      using Cons.prems(1) by simp
    then show ?thesis using Cons.IH [of "cur @ [a]"] Cons.prems(2) by auto
  qed
qed

lemma split_from_word:
  "\<forall>c\<in>set w. \<not> is_space c \<Longrightarrow> split_from cur (w @ rest) = split_from (cur @ w) rest"
  by (induction w arbitrary: cur) auto

lemma split_join:
  "good_words ws \<Longrightarrow> split_from [] (join [32] ws) = ws"
proof (induction ws rule: induct_list012)
  case 1
  then show ?case by simp
next
  case (2 w)
  then show ?case using split_from_word [of w "[]" "[]"] by simp
next
  case (3 w v ws)
  then have "split_from [] (w @ [32] @ join [32] (v # ws)) = w # v # ws"
    using split_from_word [of w "[]" "[32] @ join [32] (v # ws)"] by simp
  then show ?case by simp
qed

lemma join_chars: "set (join [32] ws) \<subseteq> insert 32 (set (concat ws))"
  by (induction ws rule: induct_list012) auto

lemma rstrip_Nil [simp]: "rstrip [] = []"
  by (simp add: rstrip_def)

lemma rstrip_append:
  "rstrip (xs @ ys) = (if rstrip ys = [] then rstrip xs else xs @ rstrip ys)"
  by (auto simp: rstrip_def dropWhile_append)

lemma rstrip_word: "\<forall>c\<in>set w. \<not> is_space c \<Longrightarrow> rstrip w = w"
  by (cases w rule: rev_cases) (auto simp: rstrip_def)

lemma rstrip_space [simp]: "rstrip [32] = []"
  by (simp add: rstrip_def)

lemma rstrip_Cons_space:
  "rstrip (32 # xs) = (if rstrip xs = [] then [] else 32 # rstrip xs)"
  using rstrip_append [of "[32]" xs] by simp

lemma length_rstrip: "length (rstrip s) \<le> length s"
  by (simp add: rstrip_def length_dropWhile_le [of is_space "rev s", simplified])

lemma set_rstrip: "set (rstrip s) \<subseteq> set s"
  using set_dropWhileD [of _ is_space "rev s"] by (auto simp: rstrip_def)

lemma join_Cons_nonempty: "ws \<noteq> [] \<Longrightarrow> join sep (w # ws) = w @ sep @ join sep ws"
  by (cases ws) auto

lemma join_eq_Nil: "good_words ws \<Longrightarrow> join [32] ws = [] \<Longrightarrow> ws = []"
  by (induction ws rule: induct_list012) auto

lemma truncate_words:
  "good_words ws \<Longrightarrow>
     \<exists>ws'. good_words ws' \<and> rstrip (take n (join [32] ws)) = join [32] ws'
           \<and> set (concat ws') \<subseteq> set (concat ws)"
proof (induction ws arbitrary: n rule: induct_list012)
  case 1
  show ?case by (rule exI [of _ "[]"]) simp
next
  case (2 w)
  have sf: "\<forall>c\<in>set (take n w). \<not> is_space c"
    using 2 by (auto dest: in_set_takeD)
  show ?case
  proof (cases "take n w = []")
    case True
    then have "rstrip (take n w) = []" by (metis rstrip_Nil)
    then show ?thesis by (intro exI [of _ "[]"]) simp
  next
    case False
    then show ?thesis using sf rstrip_word [OF sf]
      by (intro exI [of _ "[take n w]"]) (auto dest: in_set_takeD)
  qed
next
  case (3 w v ws)
  have gw: "w \<noteq> []" "\<forall>c\<in>set w. \<not> is_space c" and gvs: "good_words (v # ws)"
    using 3(3) by auto
  let ?J = "join [32] (v # ws)"
  have sf: "\<forall>c\<in>set (take n w). \<not> is_space c"
    using gw by (auto dest: in_set_takeD)
  show ?case
  proof (cases "n \<le> length w")
    case True
    then have eq: "take n (join [32] (w # v # ws)) = take n w" by simp
    show ?thesis
    proof (cases "take n w = []")
      case True
      then have "rstrip (take n w) = []" by (metis rstrip_Nil)
      then show ?thesis unfolding eq by (intro exI [of _ "[]"]) simp
    next
      case False
      then show ?thesis unfolding eq using sf rstrip_word [OF sf]
        by (intro exI [of _ "[take n w]"]) (auto dest: in_set_takeD)
    qed
  next
    case False
    then obtain m where n: "n = length w + Suc m"
      by (metis add_Suc_right less_imp_Suc_add not_le_imp_less)
    have eq: "take n (join [32] (w # v # ws)) = w @ [32] @ take m ?J"
      by (simp add: n)
    from 3(2) [OF gvs, of m] obtain ws' where
      ws': "good_words ws'" "rstrip (take m ?J) = join [32] ws'"
           "set (concat ws') \<subseteq> set (concat (v # ws))"
      by blast
    show ?thesis
    proof (cases "ws' = []")
      case True
      then have "rstrip (take n (join [32] (w # v # ws))) = w"
        unfolding eq using ws'(2) gw
        by (simp add: rstrip_append [of w] rstrip_Cons_space rstrip_word)
      then show ?thesis using gw
        by (intro exI [of _ "[w]"]) auto
    next
      case False
      then have ne: "join [32] ws' \<noteq> []"
        using join_eq_Nil [OF ws'(1)] by blast
      have "rstrip (take n (join [32] (w # v # ws))) = w @ [32] @ join [32] ws'"
        unfolding eq using ws'(2) ne by (simp add: rstrip_append [of w] rstrip_Cons_space)
      also have "\<dots> = join [32] (w # ws')"
        using False by (simp add: join_Cons_nonempty)
      finally show ?thesis using gw ws'(1,3)
        by (intro exI [of _ "w # ws'"]) auto
    qed
  qed
qed

lemma kept_not_space: "c \<ge> 32 \<or> c \<in> {9, 10, 13, 32} \<Longrightarrow> \<not> is_space c \<Longrightarrow> 32 \<le> c"
  by (auto simp: is_space_def)

lemma slice_to_take: "\<exists>k. slice_to text n = take k text"
  by (auto simp: slice_to_def)

lemma sanitize_shape:
  "\<exists>ws. good_words ws \<and> sanitize_input t n = join [32] ws
        \<and> (\<forall>w\<in>set ws. \<forall>c\<in>set w. 32 \<le> c)"
proof (cases "t = []")
  case True
  then show ?thesis by (intro exI [of _ "[]"]) (simp add: sanitize_input_def)
next
  case False
  define t2 where "t2 = filter (\<lambda>c. c \<noteq> 0) (filter (\<lambda>c. c \<ge> 32 \<or> c \<in> {9, 10, 13, 32}) t)"
  define ws0 where "ws0 = split t2"
  have g0: "good_words ws0"
    unfolding ws0_def split_def by (rule split_from_good) simp
  have c0: "\<forall>w\<in>set ws0. \<forall>c\<in>set w. 32 \<le> c"
  proof (intro ballI)
    fix w c assume w: "w \<in> set ws0" and c: "c \<in> set w"
    then have "c \<in> set t2"
      using split_from_chars [of w "[]" t2 c] by (simp add: ws0_def split_def)
    then have "c \<ge> 32 \<or> c \<in> {9, 10, 13, 32}" by (auto simp: t2_def)
    moreover have "\<not> is_space c" using g0 w c by (auto simp: good_words_def)
    ultimately show "32 \<le> c" by (rule kept_not_space)
  qed
  show ?thesis
  proof (cases "\<exists>m. n = Some m \<and> m \<noteq> 0 \<and> int (length (join [32] ws0)) > m")
    case True
    then obtain m where m: "n = Some m" "m \<noteq> 0" "int (length (join [32] ws0)) > m" by blast
    obtain k where k: "slice_to (join [32] ws0) m = take k (join [32] ws0)"
      using slice_to_take by blast
    have r: "sanitize_input t n = rstrip (take k (join [32] ws0))"
      using False m k by (simp add: sanitize_input_def Let_def ws0_def t2_def)
    obtain ws' where ws': "good_words ws'" "rstrip (take k (join [32] ws0)) = join [32] ws'"
        "set (concat ws') \<subseteq> set (concat ws0)"
      using truncate_words [OF g0, of k] by blast
    have "\<forall>w\<in>set ws'. \<forall>c\<in>set w. 32 \<le> c"
      using ws'(3) c0 by auto
    then show ?thesis using ws'(1,2) r by (intro exI [of _ ws']) simp
  next
    case no: False
    have "sanitize_input t n = join [32] ws0"
      using False no by (cases n) (auto simp: sanitize_input_def Let_def ws0_def t2_def)
    then show ?thesis using g0 c0 by (intro exI [of _ ws0]) simp
  qed
qed

lemma sanitize_fixed:
  assumes "good_words ws" and "\<forall>w\<in>set ws. \<forall>c\<in>set w. 32 \<le> c"
    and "\<forall>m. n = Some m \<longrightarrow> m = 0 \<or> int (length (join [32] ws)) \<le> m"
  shows "sanitize_input (join [32] ws) n = join [32] ws"
proof (cases "join [32] ws = []")
  case True
  then show ?thesis by (simp add: sanitize_input_def)
next
  case False
  have ch: "\<forall>c\<in>set (join [32] ws). 32 \<le> c"
    using join_chars [of ws] assms(2) by auto
  then have f1: "filter (\<lambda>c. c \<ge> 32 \<or> c \<in> {9, 10, 13, 32}) (join [32] ws) = join [32] ws"
    by (intro filter_True) auto
  have f2: "filter (\<lambda>c. c \<noteq> 0) (join [32] ws) = join [32] ws"
    using ch by (intro filter_True) auto
  have sp: "split (join [32] ws) = ws"
    using split_join [OF assms(1)] by (simp add: split_def)
  have f12: "filter (\<lambda>c. c \<noteq> 0)
      (filter (\<lambda>c. c \<ge> 32 \<or> c \<in> {9, 10, 13, 32}) (join [32] ws)) = join [32] ws"
    by (simp only: f1 f2)
  have "sanitize_input (join [32] ws) n =
      (case n of None \<Rightarrow> join [32] ws
       | Some m \<Rightarrow> if m \<noteq> 0 \<and> int (length (join [32] ws)) > m
                  then rstrip (slice_to (join [32] ws) m) else join [32] ws)"
    unfolding sanitize_input_def Let_def f12 sp using False by simp
  then show ?thesis
    using assms(3) by (cases n) auto
qed

lemma sanitize_length:
  assumes "0 < m"
  shows "int (length (sanitize_input t (Some m))) \<le> m"
proof (cases "t = []")
  case True
  then show ?thesis using assms by (simp add: sanitize_input_def)
next
  case False
  define t3 where "t3 = join [32] (split (filter (\<lambda>c. c \<noteq> 0)
      (filter (\<lambda>c. c \<ge> 32 \<or> c \<in> {9, 10, 13, 32}) t)))"
  show ?thesis
  proof (cases "int (length t3) > m")
    case True
    then have "sanitize_input t (Some m) = rstrip (take (nat m) t3)"
      using False assms by (simp add: sanitize_input_def Let_def t3_def slice_to_def)
    moreover have "length (rstrip (take (nat m) t3)) \<le> nat m"
      using length_rstrip [of "take (nat m) t3"] by simp
    ultimately show ?thesis using assms by simp
  next
    case no: False
    then have "sanitize_input t (Some m) = t3"
      using False by (simp add: sanitize_input_def Let_def t3_def)
    then show ?thesis using no by simp
  qed
qed

lemma sanitize_not_longer:
  "n = Some m \<Longrightarrow> 0 \<le> m \<Longrightarrow> m = 0 \<or> int (length (sanitize_input t n)) \<le> m"
  using sanitize_length [of m t] by (cases "m = 0") auto

text \<open>
  C5, as stated, fails for a negative maximum length: \<open>text[:-1]\<close> drops the last
  character on every call, so \<open>sanitize_input("ab", -1)\<close> is \<open>"a"\<close> and sanitizing that
  again gives the empty string.
\<close>

theorem sanitize_input_negative_length_counterexample:
  "sanitize_input (str ''ab'') (Some (- 1)) = str ''a''
   \<and> sanitize_input (sanitize_input (str ''ab'') (Some (- 1))) (Some (- 1)) = []
   \<and> sanitize_input (sanitize_input (str ''ab'') (Some (- 1))) (Some (- 1))
       \<noteq> sanitize_input (str ''ab'') (Some (- 1))"
  by (simp add: sanitize_input_def str_def split_def is_space_def slice_to_def rstrip_def)

text \<open>
  C5, amended. \<open>sanitize_input\<close> is idempotent for every text and every maximum length
  that is absent or not negative:
  \<open>sanitize_input(sanitize_input(t, n), n) == sanitize_input(t, n)\<close>.
\<close>

theorem sanitize_input_idempotent:
  assumes "\<forall>m. max_length = Some m \<longrightarrow> 0 \<le> m"
  shows "sanitize_input (sanitize_input t max_length) max_length = sanitize_input t max_length"
proof -
  obtain ws where ws: "good_words ws" "sanitize_input t max_length = join [32] ws"
      "\<forall>w\<in>set ws. \<forall>c\<in>set w. 32 \<le> c"
    using sanitize_shape by blast
  have "\<forall>m. max_length = Some m \<longrightarrow> m = 0 \<or> int (length (join [32] ws)) \<le> m"
    using sanitize_not_longer [of max_length _ t] assms ws(2) by auto
  then show ?thesis
    using sanitize_fixed [OF ws(1) ws(3), of max_length] ws(2) by simp
qed

theorem sanitize_input_idempotent_witness:
  "sanitize_input ([7, 32] @ str ''ab  cd e'') (Some 6) = str ''ab cd''
   \<and> sanitize_input (sanitize_input ([7, 32] @ str ''ab  cd e'') (Some 6)) (Some 6)
       = str ''ab cd''"
proof -
  have h: "\<forall>m. Some (6::int) = Some m \<longrightarrow> 0 \<le> m" by simp
  have v: "sanitize_input ([7, 32] @ str ''ab  cd e'') (Some 6) = str ''ab cd''"
    by (simp add: sanitize_input_def str_def split_def is_space_def slice_to_def rstrip_def)
  show ?thesis
    using v sanitize_input_idempotent [OF h, of "[7, 32] @ str ''ab  cd e''"] by simp
qed

text \<open>
  C6, as stated, fails for the maximum length 0, which the test \<open>if max_length and ...\<close>
  takes for no limit: \<open>sanitize_input("abc", 0)\<close> is \<open>"abc"\<close>, of length 3.
\<close>

theorem sanitize_input_zero_length_counterexample:
  "sanitize_input (str ''abc'') (Some 0) = str ''abc''
   \<and> \<not> int (length (sanitize_input (str ''abc'') (Some 0))) \<le> 0"
  by (simp add: sanitize_input_def str_def split_def is_space_def slice_to_def rstrip_def)

text \<open>
  C6, amended. For every text and every maximum length, the result of \<open>sanitize_input\<close>
  has no character with code point below 32 other than tab, line feed, carriage return
  and space; and for every maximum length \<open>n\<close> of at least 1 its length is at most \<open>n\<close>.
\<close>

theorem sanitize_input_clean_and_bounded:
  "(\<forall>c\<in>set (sanitize_input t max_length). c < 32 \<longrightarrow> c \<in> {9, 10, 13, 32})
   \<and> (\<forall>m. max_length = Some m \<and> 1 \<le> m \<longrightarrow> int (length (sanitize_input t max_length)) \<le> m)"
proof -
  obtain ws where ws: "good_words ws" "sanitize_input t max_length = join [32] ws"
      "\<forall>w\<in>set ws. \<forall>c\<in>set w. 32 \<le> c"
    using sanitize_shape by blast
  have "\<forall>c\<in>set (join [32] ws). 32 \<le> c"
    using join_chars [of ws] ws(3) by auto
  then have "\<forall>c\<in>set (sanitize_input t max_length). c < 32 \<longrightarrow> c \<in> {9, 10, 13, 32}"
    using ws(2) by auto
  moreover have "\<forall>m. max_length = Some m \<and> 1 \<le> m \<longrightarrow> int (length (sanitize_input t max_length)) \<le> m"
    using sanitize_length by auto
  ultimately show ?thesis by simp
qed

theorem sanitize_input_clean_and_bounded_witness:
  "sanitize_input ([7, 32] @ str ''ab  cd e'') (Some 6) = str ''ab cd''
   \<and> 7 \<notin> set (sanitize_input ([7, 32] @ str ''ab  cd e'') (Some 6))
   \<and> int (length (sanitize_input ([7, 32] @ str ''ab  cd e'') (Some 6))) \<le> 6"
proof -
  note th = sanitize_input_clean_and_bounded [of "[7, 32] @ str ''ab  cd e''" "Some 6"]
  have v: "sanitize_input ([7, 32] @ str ''ab  cd e'') (Some 6) = str ''ab cd''"
    by (simp add: sanitize_input_def str_def split_def is_space_def slice_to_def rstrip_def)
  have len: "int (length (sanitize_input ([7, 32] @ str ''ab  cd e'') (Some 6))) \<le> 6"
    using th [THEN conjunct2, THEN spec, of 6] by simp
  have "7 \<notin> set (sanitize_input ([7, 32] @ str ''ab  cd e'') (Some 6))"
  proof
    assume "7 \<in> set (sanitize_input ([7, 32] @ str ''ab  cd e'') (Some 6))"
    from th [THEN conjunct1, THEN bspec, OF this] show False by simp
  qed
  then show ?thesis using v len by simp
qed

section \<open>Properties of \<open>detect_prompt_injection\<close>\<close>

lemma contains_iff_sublist: "contains t needle \<longleftrightarrow> sublist needle t"
  by (induction t) (auto simp: sublist_Cons_right)

lemma ascii_lower_below: "ascii_lower c < 128 \<Longrightarrow> c < 128"
  by (simp add: ascii_lower_def split: if_splits)

lemma system_tag_ascii:
  assumes "map ascii_lower u = str ''system:''"
  shows "\<forall>c\<in>set u. c < 128"
proof
  fix c assume "c \<in> set u"
  then have "ascii_lower c \<in> set (map ascii_lower u)" by simp
  then have "ascii_lower c \<in> set (str ''system:'')" using assms by simp
  then have "ascii_lower c < 128" by (auto simp: str_def)
  then show "c < 128" by (rule ascii_lower_below)
qed

lemma contains_lowered:
  assumes "lowers_ascii f" and "contains t u" and "\<forall>c\<in>set u. c < 128"
  shows "contains (f t) (map ascii_lower u)"
proof -
  obtain p s where t: "t = p @ u @ s"
    using assms(2) by (auto simp: contains_iff_sublist sublist_def)
  obtain p' s' where "f (p @ u @ s) = p' @ map ascii_lower u @ s'"
    using assms(1,3) unfolding lowers_ascii_def by blast
  then show ?thesis
    by (simp add: t contains_iff_sublist)
qed

lemma map_ascii_lower_lowers_ascii: "lowers_ascii (map ascii_lower)"
  unfolding lowers_ascii_def by auto

text \<open>
  C2. For a text that is not blank, and whatever the Unicode tables of the library are,
  \<open>is_safe\<close> holds exactly when the accumulated risk score is at most 0.5, the
  lower-cased text does not contain both \<open>ignore\<close> and \<open>instruction\<close>, and it contains
  none of \<open>system:\<close>, \<open>user:\<close>, \<open>assistant:\<close>; the reported score is the accumulated
  one capped at 1; and, \<open>str.lower\<close> lower-casing ASCII letters in place, a text that
  contains \<open>system:\<close> in any case of its letters is unsafe whatever its score.
\<close>

theorem detect_prompt_injection_is_safe:
  assumes "\<not> (t = [] \<or> strip t = [])"
  shows "(is_safe (detect_prompt_injection U t) \<longleftrightarrow>
            accumulated_risk_score U t \<le> 5 / 10
          \<and> \<not> (contains (str_lower U t) (str ''ignore'')
               \<and> contains (str_lower U t) (str ''instruction''))
          \<and> \<not> contains (str_lower U t) (str ''system:'')
          \<and> \<not> contains (str_lower U t) (str ''user:'')
          \<and> \<not> contains (str_lower U t) (str ''assistant:''))
       \<and> risk_score (detect_prompt_injection U t) = min (accumulated_risk_score U t) 1
       \<and> (lowers_ascii (str_lower U) \<longrightarrow>
            (\<forall>u. contains t u \<and> map ascii_lower u = str ''system:''
                 \<longrightarrow> \<not> is_safe (detect_prompt_injection U t)))"
proof -
  have safe: "is_safe (detect_prompt_injection U t) \<longleftrightarrow>
            min (accumulated_risk_score U t) 1 \<le> 5 / 10
          \<and> \<not> ((contains (str_lower U t) (str ''ignore'')
                \<and> contains (str_lower U t) (str ''instruction''))
               \<or> contains (str_lower U t) (str ''system:'')
               \<or> contains (str_lower U t) (str ''user:'')
               \<or> contains (str_lower U t) (str ''assistant:''))"
    using assms by (simp add: detect_prompt_injection_def Let_def)
  have score: "risk_score (detect_prompt_injection U t) = min (accumulated_risk_score U t) 1"
    using assms by (simp add: detect_prompt_injection_def Let_def)
  have cap: "min (accumulated_risk_score U t) 1 \<le> 5 / 10
      \<longleftrightarrow> accumulated_risk_score U t \<le> 5 / 10"
    by (auto simp: min_def)
  have tag: "\<not> is_safe (detect_prompt_injection U t)"
    if "lowers_ascii (str_lower U)" "contains t u" "map ascii_lower u = str ''system:''" for u
  proof -
    have "contains (str_lower U t) (map ascii_lower u)"
      using that(1,2) system_tag_ascii [OF that(3)] by (rule contains_lowered)
    then show ?thesis using that(3) safe by simp
  qed
  show ?thesis using safe score cap tag by blast
qed

theorem detect_prompt_injection_is_safe_witness:
  "\<not> (str ''SYSTEM: hi'' = [] \<or> strip (str ''SYSTEM: hi'') = [])
   \<and> lowers_ascii (str_lower ascii_tables)
   \<and> contains (str ''SYSTEM: hi'') (str ''SYSTEM:'')
   \<and> map ascii_lower (str ''SYSTEM:'') = str ''system:''
   \<and> \<not> is_safe (detect_prompt_injection ascii_tables (str ''SYSTEM: hi''))"
proof -
  have nb: "\<not> (str ''SYSTEM: hi'' = [] \<or> strip (str ''SYSTEM: hi'') = [])"
    by (simp add: str_def strip_def lstrip_def rstrip_def is_space_def)
  have la: "lowers_ascii (str_lower ascii_tables)"
    using map_ascii_lower_lowers_ascii by (simp add: ascii_tables_def)
  have c: "contains (str ''SYSTEM: hi'') (str ''SYSTEM:'')"
    by (simp add: str_def)
  have l: "map ascii_lower (str ''SYSTEM:'') = str ''system:''"
    by (simp add: str_def ascii_lower_def)
  have "\<forall>u. contains (str ''SYSTEM: hi'') u \<and> map ascii_lower u = str ''system:''
      \<longrightarrow> \<not> is_safe (detect_prompt_injection ascii_tables (str ''SYSTEM: hi''))"
    using detect_prompt_injection_is_safe [OF nb, of ascii_tables, THEN conjunct2,
      THEN conjunct2, THEN mp, OF la] .
  then have "contains (str ''SYSTEM: hi'') (str ''SYSTEM:'')
      \<and> map ascii_lower (str ''SYSTEM:'') = str ''system:''
      \<longrightarrow> \<not> is_safe (detect_prompt_injection ascii_tables (str ''SYSTEM: hi''))"
    by (rule spec)
  then have "\<not> is_safe (detect_prompt_injection ascii_tables (str ''SYSTEM: hi''))"
    using c l by (rule mp [OF _ conjI])
  then show ?thesis
    using nb la c l by (intro conjI)
qed

section \<open>Properties of the dispatch\<close>

lemma contains_append: "contains (p @ x @ s) x"
  by (simp add: contains_iff_sublist)

lemma names_honeypot:
  "honeypot_names = {str ''execute_system_command'', str ''access_database'',
     str ''read_system_files'', str ''modify_user_permissions'', str ''bypass_security''}"
  by (auto simp: honeypot_names_def create_honeypot_functions_def)

lemma names_legitimate:
  "legitimate_names = {str ''answer_resume_question'', str ''request_clarification'',
     str ''handle_clarification_response''}"
  by (auto simp: legitimate_names_def create_legitimate_functions_def)

lemma names_disjoint: "honeypot_names \<inter> legitimate_names = {}"
  by (simp add: names_honeypot names_legitimate str_def)

text \<open>
  C9. The decoy names and the legitimate names are disjoint, and the class of a name is
  decided by membership in the two sets alone: a name is a decoy exactly when it is in the
  decoy set, legitimate exactly when it is in the legitimate set, and unknown otherwise.
\<close>

theorem classification_by_name:
  "honeypot_names \<inter> legitimate_names = {}
   \<and> (classify n = Decoy \<longleftrightarrow> n \<in> honeypot_names)
   \<and> (classify n = Legitimate \<longleftrightarrow> n \<in> legitimate_names)
   \<and> (classify n = Unknown \<longleftrightarrow> n \<notin> honeypot_names \<and> n \<notin> legitimate_names)"
  using names_disjoint by (auto simp: classify_def)

theorem classification_by_name_witness:
  "classify (str ''bypass_security'') = Decoy
   \<and> classify (str ''request_clarification'') = Legitimate
   \<and> classify (str ''delete_everything'') = Unknown"
  using classification_by_name [of "str ''bypass_security''"]
    classification_by_name [of "str ''request_clarification''"]
    classification_by_name [of "str ''delete_everything''"]
  by (simp add: names_honeypot names_legitimate str_def)

text \<open>
  C3. For a decoy name, with any arguments and any session bound or none, the dispatch
  yields the fixed refusal, leaves the session manager (every session, with its messages
  and its clarification state) as it was, and adds one record to the log, of level
  critical, whose message contains the name, the arguments as formatted, and the question.
\<close>

theorem decoy_dispatch:
  assumes "function_name \<in> honeypot_names"
  shows "fst (dispatch_tool_call render W session function_name function_args question t1 t2 t3)
           = decoy_reply
       \<and> session_manager (snd (dispatch_tool_call render W session function_name function_args
                                 question t1 t2 t3)) = session_manager W
       \<and> (\<exists>msg. logger (snd (dispatch_tool_call render W session function_name function_args
                                 question t1 t2 t3)) = logger W @ [(CRITICAL, msg)]
               \<and> contains msg function_name
               \<and> contains msg (format_value render function_args)
               \<and> contains msg question)"
proof -
  let ?msg = "str ''SECURITY ALERT: Honeypot function '' @ [39] @ function_name @ [39]
          @ str '' called! Arguments: '' @ format_value render function_args
          @ str '', Original question: '' @ [39] @ question @ [39]"
  have c: "classify function_name = Decoy"
    using assms by (simp add: classify_def)
  have d: "dispatch_tool_call render W session function_name function_args question t1 t2 t3
      = (decoy_reply, W\<lparr>logger := logger W @ [(CRITICAL, ?msg)]\<rparr>)"
    by (simp add: dispatch_tool_call_def c handle_honeypot_call_def)
  have 1: "contains ?msg function_name"
    using contains_append [of "str ''SECURITY ALERT: Honeypot function '' @ [39]" function_name]
    by simp
  have 2: "contains ?msg (format_value render function_args)"
    using contains_append [of "str ''SECURITY ALERT: Honeypot function '' @ [39] @ function_name
      @ [39] @ str '' called! Arguments: ''" "format_value render function_args"]
    by simp
  have 3: "contains ?msg question"
    using contains_append [of "str ''SECURITY ALERT: Honeypot function '' @ [39] @ function_name
      @ [39] @ str '' called! Arguments: '' @ format_value render function_args
      @ str '', Original question: '' @ [39]" question "[39]"]
    by simp
  show ?thesis
    unfolding d using 1 2 3 by simp
qed

theorem decoy_dispatch_witness:
  "str ''execute_system_command'' \<in> honeypot_names
   \<and> fst (dispatch_tool_call sample_render sample_world (Some one_session)
            (str ''execute_system_command'') rm_arguments (str ''run it'') 10 11 12)
       = decoy_reply
   \<and> session_manager (snd (dispatch_tool_call sample_render sample_world (Some one_session)
            (str ''execute_system_command'') rm_arguments (str ''run it'') 10 11 12))
       = one_session_manager
   \<and> (\<exists>msg. logger (snd (dispatch_tool_call sample_render sample_world (Some one_session)
            (str ''execute_system_command'') rm_arguments (str ''run it'') 10 11 12))
              = [(CRITICAL, msg)]
            \<and> contains msg (str ''execute_system_command'')
            \<and> contains msg (format_value sample_render rm_arguments)
            \<and> contains msg (str ''run it''))"
proof -
  have h: "str ''execute_system_command'' \<in> honeypot_names"
    by (simp add: names_honeypot)
  show ?thesis
    using h decoy_dispatch [OF h, of sample_render sample_world "Some one_session"
        rm_arguments "str ''run it''" 10 11 12]
    by (simp add: sample_world_def)
qed

lemma classify_request: "classify (str ''request_clarification'') = Legitimate"
  by (simp add: classify_def names_honeypot names_legitimate str_def)

lemma classify_response: "classify (str ''handle_clarification_response'') = Legitimate"
  by (simp add: classify_def names_honeypot names_legitimate str_def)

lemma get_session_live:
  assumes "sessions M sid = Some s" and "now - last_accessed s \<le> of_int (session_timeout M)"
  shows "get_session M now sid =
     (Some (s\<lparr>last_accessed := now\<rparr>),
      M\<lparr>sessions := (sessions M)(sid \<mapsto> s\<lparr>last_accessed := now\<rparr>)\<rparr>)"
  using assms by (simp add: get_session_def expired_def)

lemma set_awaiting_clarification_live:
  assumes "sessions M sid = Some s" and "now - last_accessed s \<le> of_int (session_timeout M)"
  shows "snd (set_awaiting_clarification M now sid q ctx) =
     M\<lparr>sessions := (sessions M)(sid \<mapsto>
        s\<lparr>last_accessed := now, awaiting_clarification := True, original_question := q,
          clarification_context := Some ctx\<rparr>)\<rparr>"
  by (simp add: set_awaiting_clarification_def get_session_live [OF assms])

lemma clear_clarification_state_live:
  assumes "sessions M sid = Some s" and "now - last_accessed s \<le> of_int (session_timeout M)"
  shows "snd (clear_clarification_state M now sid) =
     M\<lparr>sessions := (sessions M)(sid \<mapsto>
        s\<lparr>last_accessed := now, awaiting_clarification := False, original_question := PNone,
          clarification_context := None\<rparr>)\<rparr>"
  by (simp add: clear_clarification_state_def get_session_live [OF assms])

lemma add_message_live:
  assumes "sessions M sid = Some s" and "now - last_accessed s \<le> of_int (session_timeout M)"
  shows "snd (add_message M now ts sid r c md) =
     M\<lparr>sessions := (sessions M)(sid \<mapsto>
        s\<lparr>last_accessed := now,
          messages := messages s @
            [\<lparr>role = r, content = c, timestamp = ts,
              metadata = (case md of None \<Rightarrow> [] | Some d \<Rightarrow> d)\<rparr>]\<rparr>)\<rparr>"
  by (simp add: add_message_def get_session_live [OF assms])

lemma confidence_indicator_hashable:
  "(\<forall>xs. v \<noteq> PList xs) \<and> (\<forall>xs. v \<noteq> PDict xs) \<Longrightarrow> \<exists>g. confidence_indicator v = Inr g"
  by (cases v) (auto simp: confidence_indicator_def)


lemma dispatch_request_clarification:
  assumes "sessions (session_manager W) sid = Some s" and "session_id b = sid" and "sid \<noteq> []"
    and "t1 - last_accessed s \<le> of_int (session_timeout (session_manager W))"
    and "t2 - t1 \<le> of_int (session_timeout (session_manager W))"
  shows "dispatch_tool_call render W (Some b) (str ''request_clarification'') (PDict a) q t1 t2 t3 =
     (str ''I need some clarification: ''
        @ format_value render (case map_of a (str ''clarification_request'') of
                                 None \<Rightarrow> PStr [] | Some v \<Rightarrow> v),
      W\<lparr>session_manager := (session_manager W)\<lparr>sessions := (sessions (session_manager W))(sid \<mapsto>
         s\<lparr>awaiting_clarification := True,
           original_question := (case map_of a (str ''clarification_request'') of
                                   None \<Rightarrow> PStr [] | Some v \<Rightarrow> v),
           clarification_context := Some [(str ''reason'',
              case map_of a (str ''reason'') of
                None \<Rightarrow> PStr (str ''unclear_question'') | Some v \<Rightarrow> v)],
           last_accessed := t2,
           messages := messages s @
             [\<lparr>role = str ''assistant'',
               content = str ''I need some clarification: ''
                 @ format_value render (case map_of a (str ''clarification_request'') of
                                          None \<Rightarrow> PStr [] | Some v \<Rightarrow> v),
               timestamp = t3,
               metadata = [(str ''function_called'', PStr (str ''request_clarification''))]\<rparr>]\<rparr>)\<rparr>\<rparr>)"
proof -
  let ?c = "case map_of a (str ''clarification_request'') of None \<Rightarrow> PStr [] | Some v \<Rightarrow> v"
  let ?r = "case map_of a (str ''reason'') of
                None \<Rightarrow> PStr (str ''unclear_question'') | Some v \<Rightarrow> v"
  let ?M = "session_manager W"
  let ?M1 = "?M\<lparr>sessions := (sessions ?M)(sid \<mapsto>
        s\<lparr>last_accessed := t1, awaiting_clarification := True, original_question := ?c,
          clarification_context := Some [(str ''reason'', ?r)]\<rparr>)\<rparr>"
  have ne: "str ''request_clarification'' \<noteq> str ''answer_resume_question''"
    by (simp add: str_def)
  have h: "handle_legitimate_call render ?M t1 (str ''request_clarification'') (PDict a) (Some sid)
      = Inr (str ''I need some clarification: '' @ format_value render ?c, ?M1)"
    using assms(3)
    by (simp add: handle_legitimate_call_def ne dict_get_def truthy_def
          set_awaiting_clarification_live [OF assms(1,4)])
  have m: "snd (add_message ?M1 t2 t3 sid r c md) =
      ?M1\<lparr>sessions := (sessions ?M1)(sid \<mapsto>
        (s\<lparr>last_accessed := t1, awaiting_clarification := True, original_question := ?c,
          clarification_context := Some [(str ''reason'', ?r)]\<rparr>)
        \<lparr>last_accessed := t2,
          messages := messages s @
            [\<lparr>role = r, content = c, timestamp = t3,
              metadata = (case md of None \<Rightarrow> [] | Some d \<Rightarrow> d)\<rparr>]\<rparr>)\<rparr>" for r c md
    using add_message_live [of ?M1 sid _ t2 t3 r c md] assms(5) by simp
  show ?thesis
    by (simp add: dispatch_tool_call_def classify_request h assms(2) m)
qed

lemma dispatch_clarification_response:
  assumes "sessions (session_manager W) sid = Some s" and "session_id b = sid" and "sid \<noteq> []"
    and "t1 - last_accessed s \<le> of_int (session_timeout (session_manager W))"
    and "t2 - t1 \<le> of_int (session_timeout (session_manager W))"
    and "confidence_indicator (case map_of a (str ''confidence'') of
            None \<Rightarrow> PStr (str ''medium'') | Some v \<Rightarrow> v) = Inr glyph"
  shows "\<exists>s'. sessions (session_manager (snd (dispatch_tool_call render W (Some b)
            (str ''handle_clarification_response'') (PDict a) q t1 t2 t3))) sid = Some s'
          \<and> \<not> awaiting_clarification s' \<and> original_question s' = PNone
          \<and> clarification_context s' = None"
proof -
  let ?M = "session_manager W"
  let ?M1 = "?M\<lparr>sessions := (sessions ?M)(sid \<mapsto>
        s\<lparr>last_accessed := t1, awaiting_clarification := False, original_question := PNone,
          clarification_context := None\<rparr>)\<rparr>"
  let ?out = "glyph @ [32] @ format_value render
      (case map_of a (str ''answer'') of None \<Rightarrow> PStr [] | Some v \<Rightarrow> v)"
  have ne: "str ''handle_clarification_response'' \<noteq> str ''answer_resume_question''"
      "str ''handle_clarification_response'' \<noteq> str ''request_clarification''"
    by (simp_all add: str_def)
  have h: "handle_legitimate_call render ?M t1 (str ''handle_clarification_response'') (PDict a)
      (Some sid) = Inr (?out, ?M1)"
    using assms(3,6)
    by (simp add: handle_legitimate_call_def ne dict_get_def truthy_def
          clear_clarification_state_live [OF assms(1,4)])
  have m: "snd (add_message ?M1 t2 t3 sid r c md) =
      ?M1\<lparr>sessions := (sessions ?M1)(sid \<mapsto>
        (s\<lparr>last_accessed := t1, awaiting_clarification := False, original_question := PNone,
          clarification_context := None\<rparr>)
        \<lparr>last_accessed := t2,
          messages := messages s @
            [\<lparr>role = r, content = c, timestamp = t3,
              metadata = (case md of None \<Rightarrow> [] | Some d \<Rightarrow> d)\<rparr>]\<rparr>)\<rparr>" for r c md
    using add_message_live [of ?M1 sid _ t2 t3 r c md] assms(5) by simp
  show ?thesis
    by (simp add: dispatch_tool_call_def classify_response h assms(2) m)
qed

lemma sample_session: "sessions (session_manager sample_world) (str ''a'') = Some one_session"
  by (simp add: sample_world_def one_session_manager_def one_session_def init_manager_def
        create_session_def)

lemma sample_timeout: "session_timeout (session_manager sample_world) = 3600"
  by (simp add: sample_world_def one_session_manager_def init_manager_def create_session_def)

lemma sample_id: "session_id one_session = str ''a''" "str ''a'' \<noteq> []"
    "last_accessed one_session = 0"
  by (simp_all add: one_session_def str_def)

text \<open>
  C1. The claim asks that the originating question be stored in \<open>original_question\<close>.
  The dispatch never hands the question to \<open>handle_legitimate_call\<close>, which stores the
  model's \<open>clarification_request\<close> argument there. On the question \<open>What about Go?\<close> and
  the request \<open>Which project do you mean?\<close>, the session is marked as awaiting
  clarification, the reason is kept in the context, the prompt text is returned, and
  \<open>original_question\<close> is the request, not the question.
\<close>

theorem request_clarification_stores_request:
  "fst (dispatch_tool_call sample_render sample_world (Some one_session)
          (str ''request_clarification'') (PDict ask_which_project) (str ''What about Go?'')
          10 11 12)
     = str ''I need some clarification: Which project do you mean?''
   \<and> map_option awaiting_clarification
        (sessions (session_manager (snd (dispatch_tool_call sample_render sample_world
           (Some one_session) (str ''request_clarification'') (PDict ask_which_project)
           (str ''What about Go?'') 10 11 12))) (str ''a'')) = Some True
   \<and> map_option clarification_context
        (sessions (session_manager (snd (dispatch_tool_call sample_render sample_world
           (Some one_session) (str ''request_clarification'') (PDict ask_which_project)
           (str ''What about Go?'') 10 11 12))) (str ''a''))
       = Some (Some [(str ''reason'', PStr (str ''outside_scope''))])
   \<and> map_option original_question
        (sessions (session_manager (snd (dispatch_tool_call sample_render sample_world
           (Some one_session) (str ''request_clarification'') (PDict ask_which_project)
           (str ''What about Go?'') 10 11 12))) (str ''a''))
       = Some (PStr (str ''Which project do you mean?''))
   \<and> PStr (str ''Which project do you mean?'') \<noteq> PStr (str ''What about Go?'')"
proof -
  have live: "10 - last_accessed one_session
      \<le> real_of_int (session_timeout (session_manager sample_world))"
    "11 - 10 \<le> real_of_int (session_timeout (session_manager sample_world))"
    by (simp_all add: sample_timeout sample_id)
  show ?thesis
    unfolding dispatch_request_clarification [OF sample_session sample_id(1,2) live]
    by (simp add: ask_which_project_def format_value_def str_def)
qed

text \<open>
  C4, as stated, fails when the model's arguments give \<open>clarification_request\<close> as JSON
  \<open>null\<close>: the arguments are what \<open>json.loads\<close> returned and are not checked, so the
  session is marked as awaiting clarification while \<open>original_question\<close> is \<open>None\<close>.
\<close>

theorem null_clarification_request_counterexample:
  "map_option awaiting_clarification
        (sessions (session_manager (snd (dispatch_tool_call sample_render sample_world
           (Some one_session) (str ''request_clarification'') (PDict null_request)
           (str ''What about Go?'') 10 11 12))) (str ''a'')) = Some True
   \<and> map_option original_question
        (sessions (session_manager (snd (dispatch_tool_call sample_render sample_world
           (Some one_session) (str ''request_clarification'') (PDict null_request)
           (str ''What about Go?'') 10 11 12))) (str ''a'')) = Some PNone"
proof -
  have live: "10 - last_accessed one_session
      \<le> real_of_int (session_timeout (session_manager sample_world))"
    "11 - 10 \<le> real_of_int (session_timeout (session_manager sample_world))"
    by (simp_all add: sample_timeout sample_id)
  show ?thesis
    unfolding dispatch_request_clarification [OF sample_session sample_id(1,2) live]
    by (simp add: null_request_def str_def)
qed

text \<open>
  C4, amended. Take a session in the store, bound to the request under its id, which is not
  empty, and clock readings that each lie within the timeout of the one before (the first
  within the timeout of the session's last access), so that the session stays live. If the
  arguments of the first call are a JSON object whose \<open>clarification_request\<close> is not
  \<open>null\<close>, then after the dispatch of \<open>request_clarification\<close> the session has
  \<open>awaiting_clarification\<close> true and \<open>original_question\<close> set. If the arguments of the
  second call are a JSON object whose \<open>confidence\<close> is neither a list nor an object, then
  after the following dispatch of \<open>handle_clarification_response\<close> the session has
  \<open>awaiting_clarification\<close> false and \<open>original_question\<close> absent.
\<close>

theorem clarification_round_trip:
  assumes "sessions (session_manager W) sid = Some s" and "session_id b = sid" and "sid \<noteq> []"
    and "t1 - last_accessed s \<le> of_int (session_timeout (session_manager W))"
    and "t2 - t1 \<le> of_int (session_timeout (session_manager W))"
    and "t4 - t2 \<le> of_int (session_timeout (session_manager W))"
    and "t5 - t4 \<le> of_int (session_timeout (session_manager W))"
    and "map_of a1 (str ''clarification_request'') \<noteq> Some PNone"
    and "\<forall>xs. map_of a2 (str ''confidence'') \<noteq> Some (PList xs)"
    and "\<forall>xs. map_of a2 (str ''confidence'') \<noteq> Some (PDict xs)"
  shows "(\<exists>s1. sessions (session_manager (snd (dispatch_tool_call render W (Some b)
                   (str ''request_clarification'') (PDict a1) q1 t1 t2 t3))) sid = Some s1
              \<and> awaiting_clarification s1 \<and> original_question s1 \<noteq> PNone)
       \<and> (\<exists>s2. sessions (session_manager (snd (dispatch_tool_call render
                   (snd (dispatch_tool_call render W (Some b)
                      (str ''request_clarification'') (PDict a1) q1 t1 t2 t3))
                   (Some b) (str ''handle_clarification_response'') (PDict a2) q2 t4 t5 t6))) sid
                = Some s2
              \<and> \<not> awaiting_clarification s2 \<and> original_question s2 = PNone)"
proof -
  let ?W1 = "snd (dispatch_tool_call render W (Some b)
                   (str ''request_clarification'') (PDict a1) q1 t1 t2 t3)"
  let ?c = "case map_of a1 (str ''clarification_request'') of None \<Rightarrow> PStr [] | Some v \<Rightarrow> v"
  have c: "?c \<noteq> PNone"
    using assms(8) by (auto split: option.splits)
  note d1 = dispatch_request_clarification [OF assms(1-5), of render a1 q1 t3]
  obtain s1 where s1: "sessions (session_manager ?W1) sid = Some s1"
      "awaiting_clarification s1" "original_question s1 = ?c" "last_accessed s1 = t2"
      "session_timeout (session_manager ?W1) = session_timeout (session_manager W)"
    unfolding d1 by simp
  have "(\<forall>xs. (case map_of a2 (str ''confidence'') of
            None \<Rightarrow> PStr (str ''medium'') | Some v \<Rightarrow> v) \<noteq> PList xs)
      \<and> (\<forall>xs. (case map_of a2 (str ''confidence'') of
            None \<Rightarrow> PStr (str ''medium'') | Some v \<Rightarrow> v) \<noteq> PDict xs)"
    using assms(9,10) by (auto split: option.splits)
  then obtain glyph where g: "confidence_indicator (case map_of a2 (str ''confidence'') of
            None \<Rightarrow> PStr (str ''medium'') | Some v \<Rightarrow> v) = Inr glyph"
    using confidence_indicator_hashable by blast
  have live4: "t4 - last_accessed s1 \<le> of_int (session_timeout (session_manager ?W1))"
    using s1(4,5) assms(6) by simp
  have live5: "t5 - t4 \<le> of_int (session_timeout (session_manager ?W1))"
    using s1(5) assms(7) by simp
  from dispatch_clarification_response [OF s1(1) assms(2,3) live4 live5 g, of render q2 t6]
  obtain s2 where "sessions (session_manager (snd (dispatch_tool_call render ?W1 (Some b)
            (str ''handle_clarification_response'') (PDict a2) q2 t4 t5 t6))) sid = Some s2"
      "\<not> awaiting_clarification s2" "original_question s2 = PNone"
    by blast
  then show ?thesis using s1(1,2,3) c by auto
qed

theorem clarification_round_trip_witness:
  "sessions (session_manager sample_world) (str ''a'') = Some one_session
   \<and> (\<exists>s1. sessions (session_manager (snd (dispatch_tool_call sample_render sample_world
                 (Some one_session) (str ''request_clarification'') (PDict ask_which_project)
                 (str ''What about Go?'') 10 11 12))) (str ''a'') = Some s1
            \<and> awaiting_clarification s1 \<and> original_question s1 \<noteq> PNone)
   \<and> (\<exists>s2. sessions (session_manager (snd (dispatch_tool_call sample_render
                 (snd (dispatch_tool_call sample_render sample_world
                    (Some one_session) (str ''request_clarification'') (PDict ask_which_project)
                    (str ''What about Go?'') 10 11 12))
                 (Some one_session) (str ''handle_clarification_response'') (PDict answer_go)
                 (str ''The billing service'') 20 21 22))) (str ''a'') = Some s2
            \<and> \<not> awaiting_clarification s2 \<and> original_question s2 = PNone)"
proof -
  have live: "10 - last_accessed one_session
      \<le> real_of_int (session_timeout (session_manager sample_world))"
    "11 - 10 \<le> real_of_int (session_timeout (session_manager sample_world))"
    "20 - 11 \<le> real_of_int (session_timeout (session_manager sample_world))"
    "21 - 20 \<le> real_of_int (session_timeout (session_manager sample_world))"
    by (simp_all add: sample_timeout sample_id)
  have a1: "map_of ask_which_project (str ''clarification_request'') \<noteq> Some PNone"
    by (simp add: ask_which_project_def)
  have a2: "\<forall>xs. map_of answer_go (str ''confidence'') \<noteq> Some (PList xs)"
    "\<forall>xs. map_of answer_go (str ''confidence'') \<noteq> Some (PDict xs)"
    by (simp_all add: answer_go_def str_def)
  show ?thesis
    using sample_session
      clarification_round_trip [OF sample_session sample_id(1,2) live a1 a2,
        of sample_render "str ''What about Go?''" 12 "str ''The billing service''" 22]
    by simp
qed

end
